theory Spec2Isabelle
  imports Complex_Main "HOL-Library.Word"
begin

section \<open>The drawing surface the component talks to\<close>

text \<open>
  \<^verbatim>\<open>canvas.component.ts\<close> is one Angular component, \<open>CanvasComponent\<close>. Its own
  state is a handful of fields (\<open>drawing\<close>, \<open>selectedShape\<close>, \<open>startX\<close>, \<open>startY\<close>,
  \<open>undoStack\<close>, \<open>redoStack\<close>, \<open>backgroundColor\<close>); everything else it does is a call into
  the browser: the 2D drawing surface of an \<open>HTMLCanvasElement\<close>, the image decoder
  behind \<open>new Image()\<close>, and the event objects. This section fixes the small part of the
  browser the component relies on. None of it is code of the repository; it follows the
  HTML Canvas 2D and the Compositing specifications, and what those leave to the
  implementation (rasterising a stroke, the PNG codec, colour names) is a field of the
  record \<open>browser\<close>, taken as a parameter by every function that needs it.

  JavaScript numbers are modelled as \<open>real\<close>: rounding of IEEE doubles is not modelled.
\<close>

subsection \<open>Pixels and compositing\<close>

type_synonym channel = "8 word"

datatype pixel = RGBA (red: channel) (green: channel) (blue: channel) (alpha: channel)

text \<open>The bitmap of a canvas, row after row. The component never resizes its canvas.\<close>

type_synonym bitmap = "pixel list"

definition transparent_black :: pixel where
  "transparent_black = RGBA 0 0 0 0"

definition opaque_white :: pixel where
  "opaque_white = RGBA 255 255 255 255"

definition opaque_black :: pixel where
  "opaque_black = RGBA 0 0 0 255"

text \<open>
  Porter-Duff source-over on 8-bit channels, the default \<open>globalCompositeOperation\<close>:
  \<open>\<alpha>\<^sub>o = \<alpha>\<^sub>s + \<alpha>\<^sub>b (1 - \<alpha>\<^sub>s)\<close> and \<open>C\<^sub>o = (C\<^sub>s \<alpha>\<^sub>s + C\<^sub>b \<alpha>\<^sub>b (1 - \<alpha>\<^sub>s)) / \<alpha>\<^sub>o\<close>, with
  alpha scaled to \<open>0..255\<close>, truncating division and the result clamped to a byte.
  Where the result is fully transparent its colour is immaterial; the source pixel is
  kept.
\<close>

definition mix :: "nat \<Rightarrow> nat \<Rightarrow> nat \<Rightarrow> channel \<Rightarrow> channel \<Rightarrow> channel" where
  "mix as ab ao cs cb =
     of_nat (min 255 ((unat cs * as * 255 + unat cb * ab * (255 - as)) div (255 * ao)))"

definition source_over :: "pixel \<Rightarrow> pixel \<Rightarrow> pixel" where
  "source_over s b =
     (let as = unat (alpha s); ab = unat (alpha b);
          ao = as + ab * (255 - as) div 255
      in if ao = 0 then s
         else RGBA (mix as ab ao (red s) (red b)) (mix as ab ao (green s) (green b))
                   (mix as ab ao (blue s) (blue b)) (of_nat ao))"

text \<open>
  \<open>drawImage(img, 0, 0)\<close>: the image is composited pixel by pixel onto the
  destination and clipped to it; destination pixels the image does not reach stay.
\<close>

fun overlay :: "bitmap \<Rightarrow> bitmap \<Rightarrow> bitmap" where
  "overlay (s # ss) (b # bs) = source_over s b # overlay ss bs"
| "overlay [] bs = bs"
| "overlay ss [] = []"

subsection \<open>Colours\<close>

text \<open>
  A colour is assigned to \<open>fillStyle\<close> and \<open>strokeStyle\<close> as a CSS string. The six-digit
  hexadecimal form \<open>#rrggbb\<close> (the form of every colour literal in the source) is
  parsed here; every other CSS syntax is the browser's (\<open>other_color\<close>), which answers
  \<open>None\<close> for a string that is no colour.
\<close>

definition hex_digit :: "char \<Rightarrow> nat option" where
  "hex_digit c =
     (let n = (of_char c :: nat)
      in if 48 \<le> n \<and> n \<le> 57 then Some (n - 48)
         else if 97 \<le> n \<and> n \<le> 102 then Some (n - 87)
         else if 65 \<le> n \<and> n \<le> 70 then Some (n - 55)
         else None)"

definition hex_byte :: "char \<Rightarrow> char \<Rightarrow> channel option" where
  "hex_byte h l =
     (case (hex_digit h, hex_digit l) of
        (Some a, Some b) \<Rightarrow> Some (of_nat (16 * a + b))
      | _ \<Rightarrow> None)"

definition hex_color :: "string \<Rightarrow> pixel option" where
  "hex_color s =
     (case s of
        [h, r1, r0, g1, g0, b1, b0] \<Rightarrow>
          (if h = CHR ''#'' then
             (case (hex_byte r1 r0, hex_byte g1 g0, hex_byte b1 b0) of
                (Some r, Some g, Some b) \<Rightarrow> Some (RGBA r g b 255)
              | _ \<Rightarrow> None)
           else None)
      | _ \<Rightarrow> None)"

subsection \<open>What is left to the browser\<close>

datatype pathcmd =
    MoveTo real real
  | LineTo real real
  | Rect real real real real
  | Arc real real real real real
  | ClosePath

record browser =
  toDataURL :: "bitmap \<Rightarrow> string"
  decode :: "string \<Rightarrow> bitmap option"
  rasterize :: "pathcmd list \<Rightarrow> pixel \<Rightarrow> bitmap \<Rightarrow> bitmap"
  other_color :: "string \<Rightarrow> pixel option"

text \<open>
  \<open>toDataURL\<close> is \<open>canvas.toDataURL()\<close>, the PNG data URL of a bitmap; \<open>decode\<close> is what
  an \<open>Image\<close> whose \<open>src\<close> is that string holds once it has loaded (\<open>None\<close>: the load
  fails and \<open>onload\<close> never runs); \<open>rasterize\<close> is \<open>ctx.stroke()\<close>, painting the current
  path in the stroke colour.
\<close>

definition css_color :: "browser \<Rightarrow> string \<Rightarrow> pixel option" where
  "css_color B s = (case hex_color s of Some p \<Rightarrow> Some p | None \<Rightarrow> other_color B s)"

subsection \<open>The canvas element and its 2D drawing state\<close>

record canvas_element =
  bitmap :: bitmap
  fillStyle :: pixel
  strokeStyle :: pixel
  path :: "pathcmd list"

text \<open>\<open>document.createElement('canvas')\<close> sized like an existing bitmap: transparent
  black everywhere, both styles \<open>#000000\<close>, no path.\<close>

definition blank_canvas :: "bitmap \<Rightarrow> canvas_element" where
  "blank_canvas like =
     \<lparr>bitmap = map (\<lambda>_. transparent_black) like,
      fillStyle = opaque_black, strokeStyle = opaque_black, path = []\<rparr>"

text \<open>Assigning a string that is no colour leaves the style as it was.\<close>

definition set_fillStyle :: "browser \<Rightarrow> string \<Rightarrow> canvas_element \<Rightarrow> canvas_element" where
  "set_fillStyle B color c =
     (case css_color B color of None \<Rightarrow> c | Some p \<Rightarrow> c\<lparr>fillStyle := p\<rparr>)"

definition set_strokeStyle :: "browser \<Rightarrow> string \<Rightarrow> canvas_element \<Rightarrow> canvas_element" where
  "set_strokeStyle B color c =
     (case css_color B color of None \<Rightarrow> c | Some p \<Rightarrow> c\<lparr>strokeStyle := p\<rparr>)"

definition beginPath :: "canvas_element \<Rightarrow> canvas_element" where
  "beginPath c = c\<lparr>path := []\<rparr>"

definition moveTo :: "real \<Rightarrow> real \<Rightarrow> canvas_element \<Rightarrow> canvas_element" where
  "moveTo x y c = c\<lparr>path := path c @ [MoveTo x y]\<rparr>"

definition lineTo :: "real \<Rightarrow> real \<Rightarrow> canvas_element \<Rightarrow> canvas_element" where
  "lineTo x y c = c\<lparr>path := path c @ [LineTo x y]\<rparr>"

definition rect :: "real \<Rightarrow> real \<Rightarrow> real \<Rightarrow> real \<Rightarrow> canvas_element \<Rightarrow> canvas_element" where
  "rect x y w h c = c\<lparr>path := path c @ [Rect x y w h]\<rparr>"

definition arc :: "real \<Rightarrow> real \<Rightarrow> real \<Rightarrow> real \<Rightarrow> real \<Rightarrow> canvas_element \<Rightarrow> canvas_element" where
  "arc x y r a0 a1 c = c\<lparr>path := path c @ [Arc x y r a0 a1]\<rparr>"

definition closePath :: "canvas_element \<Rightarrow> canvas_element" where
  "closePath c = c\<lparr>path := path c @ [ClosePath]\<rparr>"

definition stroke :: "browser \<Rightarrow> canvas_element \<Rightarrow> canvas_element" where
  "stroke B c = c\<lparr>bitmap := rasterize B (path c) (strokeStyle c) (bitmap c)\<rparr>"

text \<open>\<open>fillRect\<close> and \<open>clearRect\<close> are only ever called on
  \<open>(0, 0, canvas.width, canvas.height)\<close>, the whole surface.\<close>

definition fillRect :: "canvas_element \<Rightarrow> canvas_element" where
  "fillRect c = c\<lparr>bitmap := map (source_over (fillStyle c)) (bitmap c)\<rparr>"

definition clearRect :: "canvas_element \<Rightarrow> canvas_element" where
  "clearRect c = c\<lparr>bitmap := map (\<lambda>_. transparent_black) (bitmap c)\<rparr>"

definition drawImage :: "bitmap \<Rightarrow> canvas_element \<Rightarrow> canvas_element" where
  "drawImage img c = c\<lparr>bitmap := overlay img (bitmap c)\<rparr>"

subsection \<open>Events and run-time errors\<close>

datatype event =
    MouseEvent real real
  | TouchEvent "(real \<times> real) list"
  | OtherEvent

text \<open>\<open>MouseEvent clientX clientY\<close>; \<open>TouchEvent touches\<close>, each touch with its
  \<open>clientX\<close> and \<open>clientY\<close>; \<open>OtherEvent\<close> is any event that is neither.\<close>

record KeyboardEvent =
  ctrlKey :: bool
  shiftKey :: bool
  key :: string

record DOMRect =
  rect_left :: real
  rect_top :: real

datatype error = Error string | TypeError

section \<open>The component\<close>

text \<open>
  An image created with \<open>new Image()\<close> loads after the handler that set its \<open>src\<close>
  has returned. The two places that do so leave a callback behind: \<open>redraw\<close> one that
  draws the image, \<open>restoreCanvas\<close> one that clears the surface and draws the image.
  The callbacks not yet run are the field \<open>pending\<close> of the state.
\<close>

datatype image_load = RedrawLoad string | RestoreLoad string

record component =
  canvas :: canvas_element
  drawing :: bool
  selectedShape :: string
  startX :: real
  startY :: real
  undoStack :: "string list"
  redoStack :: "string list"
  backgroundColor :: string
  pending :: "image_load list"

text \<open>
  \<open>canvas\<close> is \<open>this.canvas.nativeElement\<close> together with the drawing state of its 2D
  context, \<open>this.ctx\<close>. \<open>initializeCanvas\<close> binds \<open>ctx\<close> before anything else uses it
  and throws when there is no context; every other function is modelled for a
  component whose \<open>ctx\<close> is bound. \<open>console.log\<close> calls are left out.

  The field initialisers of the class, over a canvas element just created:
\<close>

definition new_component :: "bitmap \<Rightarrow> component" where
  "new_component like =
     \<lparr>canvas = blank_canvas like, drawing = False, selectedShape = ''freehand'',
      startX = 0, startY = 0, undoStack = [], redoStack = [],
      backgroundColor = ''#ffffff'', pending = []\<rparr>"

subsection \<open>History\<close>

definition saveState :: "browser \<Rightarrow> component \<Rightarrow> component" where
  "saveState B s =
     (let pushed = undoStack s @ [toDataURL B (bitmap (canvas s))];
          shifted = (if length pushed > 10 then tl pushed else pushed)
      in s\<lparr>undoStack := shifted, redoStack := []\<rparr>)"

definition restoreCanvas :: "string \<Rightarrow> component \<Rightarrow> component" where
  "restoreCanvas dataUrl s = s\<lparr>pending := pending s @ [RestoreLoad dataUrl]\<rparr>"

definition undoCanvas :: "component \<Rightarrow> component" where
  "undoCanvas s =
     (if length (undoStack s) > 1 then
        (let s1 = s\<lparr>undoStack := butlast (undoStack s),
                     redoStack := redoStack s @ [last (undoStack s)]\<rparr>
         in restoreCanvas (undoStack s1 ! (length (undoStack s1) - 1)) s1)
      else s)"

definition redoCanvas :: "component \<Rightarrow> component" where
  "redoCanvas s =
     (if length (redoStack s) > 0 then
        (let img = last (redoStack s);
             s1 = s\<lparr>redoStack := butlast (redoStack s), undoStack := undoStack s @ [img]\<rparr>
         in restoreCanvas img s1)
      else s)"

definition clearCanvas :: "browser \<Rightarrow> component \<Rightarrow> component" where
  "clearCanvas B s =
     saveState B (s\<lparr>canvas := fillRect (set_fillStyle B (backgroundColor s) (canvas s))\<rparr>)"

definition initializeCanvas :: "browser \<Rightarrow> bool \<Rightarrow> component \<Rightarrow> error + component" where
  "initializeCanvas B has_2d s =
     (if has_2d then Inr (clearCanvas B s) else Inl (Error ''Unable to get 2D context''))"

text \<open>\<open>has_2d\<close>: whether \<open>canvas.getContext('2d')\<close> answers a context or \<open>null\<close>.\<close>

subsection \<open>Settings\<close>

definition onShapeSelected :: "string \<Rightarrow> component \<Rightarrow> component" where
  "onShapeSelected shape s = s\<lparr>selectedShape := shape\<rparr>"

definition changeColor :: "browser \<Rightarrow> string \<Rightarrow> component \<Rightarrow> component" where
  "changeColor B color s = s\<lparr>canvas := set_strokeStyle B color (canvas s)\<rparr>"

definition onBackgroundColorSelected :: "browser \<Rightarrow> string \<Rightarrow> component \<Rightarrow> component" where
  "onBackgroundColorSelected B color s = clearCanvas B (s\<lparr>backgroundColor := color\<rparr>)"

subsection \<open>Shapes\<close>

definition drawShape :: "browser \<Rightarrow> real \<Rightarrow> real \<Rightarrow> real \<Rightarrow> real \<Rightarrow> component \<Rightarrow> component" where
  "drawShape B sx sy ex ey s =
     (let c0 = beginPath (canvas s);
          c1 = (if selectedShape s = ''line'' then lineTo ex ey (moveTo sx sy c0)
                else if selectedShape s = ''rectangle'' then
                  (let width = ex - sx; height = ey - sy in rect sx sy width height c0)
                else if selectedShape s = ''circle'' then
                  (let radius = sqrt ((ex - sx)\<^sup>2 + (ey - sy)\<^sup>2)
                   in arc sx sy radius 0 (2 * pi) c0)
                else c0)
      in s\<lparr>canvas := stroke B c1\<rparr>)"

definition stopDrawing :: "component \<Rightarrow> component" where
  "stopDrawing s =
     (let s1 = s\<lparr>drawing := False\<rparr>
      in if selectedShape s1 = ''freehand'' then s1\<lparr>canvas := closePath (canvas s1)\<rparr> else s1)"

text \<open>\<open>const [lastState] = this.undoStack.slice(-1)\<close> is \<open>undefined\<close> on an empty
  stack; \<open>if (lastState)\<close> also rejects the empty string.\<close>

definition redraw :: "component \<Rightarrow> component" where
  "redraw s =
     (let s1 = s\<lparr>canvas := clearRect (canvas s)\<rparr>
      in if undoStack s1 = [] then s1
         else if last (undoStack s1) = [] then s1
         else s1\<lparr>pending := pending s1 @ [RedrawLoad (last (undoStack s1))]\<rparr>)"

subsection \<open>Pointer and touch input\<close>

text \<open>
  \<open>getCanvasCoordinates\<close> is given whatever its caller passes. \<open>None\<close> is
  \<open>undefined\<close>: on it, and on an event that is neither a mouse nor a touch event,
  \<open>event.touches[0]\<close> raises a \<open>TypeError\<close>; on a touch event with no touch
  \<open>touch.clientX\<close> does.
\<close>

definition getCanvasCoordinates :: "DOMRect \<Rightarrow> event option \<Rightarrow> error + (real \<times> real)" where
  "getCanvasCoordinates r ev =
     (case ev of
        Some (MouseEvent clientX clientY) \<Rightarrow> Inr (clientX - rect_left r, clientY - rect_top r)
      | Some (TouchEvent []) \<Rightarrow> Inl TypeError
      | Some (TouchEvent ((clientX, clientY) # _)) \<Rightarrow>
          Inr (clientX - rect_left r, clientY - rect_top r)
      | Some OtherEvent \<Rightarrow> Inl TypeError
      | None \<Rightarrow> Inl TypeError)"

text \<open>
  In every handler \<open>r\<close> is the canvas's bounding box when the handler runs. The press
  and move handlers receive their event as an argument. The release handlers are bound
  with no argument (\<open>@HostListener('mouseup')\<close>): the \<open>event\<close> they read is the global
  \<open>window.event\<close>, the event being dispatched, modelled as the argument \<open>window_event\<close>.
  A handler that raises has changed nothing before it does. The touch handlers' calls
  of \<open>event.preventDefault()\<close> do not touch the component and are left out.
\<close>

definition onMouseDown :: "DOMRect \<Rightarrow> event \<Rightarrow> component \<Rightarrow> error + component" where
  "onMouseDown r ev s =
     (case getCanvasCoordinates r (Some ev) of
        Inl e \<Rightarrow> Inl e
      | Inr (x, y) \<Rightarrow>
          (let s1 = s\<lparr>startX := x, startY := y, drawing := True\<rparr>
           in if selectedShape s1 = ''freehand''
              then Inr (s1\<lparr>canvas := moveTo x y (beginPath (canvas s1))\<rparr>)
              else Inr s1))"

definition onMouseMove :: "browser \<Rightarrow> DOMRect \<Rightarrow> event \<Rightarrow> component \<Rightarrow> error + component" where
  "onMouseMove B r ev s =
     (if drawing s then
        (case getCanvasCoordinates r (Some ev) of
           Inl e \<Rightarrow> Inl e
         | Inr (x, y) \<Rightarrow>
             (if selectedShape s = ''freehand''
              then Inr (s\<lparr>canvas := stroke B (lineTo x y (canvas s))\<rparr>)
              else Inr (drawShape B (startX s) (startY s) x y (redraw s))))
      else Inr s)"

definition onMouseUp :: "browser \<Rightarrow> DOMRect \<Rightarrow> event option \<Rightarrow> component \<Rightarrow> error + component" where
  "onMouseUp B r window_event s =
     (if drawing s then
        (case getCanvasCoordinates r window_event of
           Inl e \<Rightarrow> Inl e
         | Inr (x, y) \<Rightarrow>
             (let s1 = (if selectedShape s \<noteq> ''freehand''
                        then drawShape B (startX s) (startY s) x y s else s)
              in Inr (saveState B (stopDrawing s1))))
      else Inr s)"

definition onTouchStart :: "DOMRect \<Rightarrow> event \<Rightarrow> component \<Rightarrow> error + component" where
  "onTouchStart r ev s =
     (case getCanvasCoordinates r (Some ev) of
        Inl e \<Rightarrow> Inl e
      | Inr (x, y) \<Rightarrow>
          (let s1 = s\<lparr>startX := x, startY := y, drawing := True\<rparr>
           in if selectedShape s1 = ''freehand''
              then Inr (s1\<lparr>canvas := moveTo x y (beginPath (canvas s1))\<rparr>)
              else Inr s1))"

definition onTouchMove :: "browser \<Rightarrow> DOMRect \<Rightarrow> event \<Rightarrow> component \<Rightarrow> error + component" where
  "onTouchMove B r ev s =
     (if drawing s then
        (case getCanvasCoordinates r (Some ev) of
           Inl e \<Rightarrow> Inl e
         | Inr (x, y) \<Rightarrow>
             (if selectedShape s = ''freehand''
              then Inr (s\<lparr>canvas := stroke B (lineTo x y (canvas s))\<rparr>)
              else Inr (drawShape B (startX s) (startY s) x y (redraw s))))
      else Inr s)"

definition onTouchEnd :: "browser \<Rightarrow> DOMRect \<Rightarrow> event option \<Rightarrow> component \<Rightarrow> error + component" where
  "onTouchEnd B r window_event s =
     (if drawing s then
        (case getCanvasCoordinates r window_event of
           Inl e \<Rightarrow> Inl e
         | Inr (x, y) \<Rightarrow>
             (let s1 = (if selectedShape s \<noteq> ''freehand''
                        then drawShape B (startX s) (startY s) x y s else s)
              in Inr (saveState B (stopDrawing s1))))
      else Inr s)"

subsection \<open>Image loads completing\<close>

text \<open>The \<open>i\<close>-th pending \<open>onload\<close> callback runs. The browser may run them in any
  order; a load that fails is dropped and its callback never runs.\<close>

definition img_onload :: "browser \<Rightarrow> nat \<Rightarrow> component \<Rightarrow> component" where
  "img_onload B i s =
     (if i < length (pending s) then
        (let s1 = s\<lparr>pending := take i (pending s) @ drop (Suc i) (pending s)\<rparr>
         in case pending s ! i of
              RedrawLoad src \<Rightarrow>
                (case decode B src of
                   None \<Rightarrow> s1
                 | Some img \<Rightarrow> s1\<lparr>canvas := drawImage img (canvas s1)\<rparr>)
            | RestoreLoad src \<Rightarrow>
                (case decode B src of
                   None \<Rightarrow> s1
                 | Some img \<Rightarrow> s1\<lparr>canvas := drawImage img (clearRect (canvas s1))\<rparr>))
      else s)"

subsection \<open>Export\<close>

record anchor =
  href :: string
  download :: string

text \<open>The temporary canvas of \<open>downloadCanvas\<close> when \<open>toDataURL\<close> is called on it,
  and the link that is clicked. The 2D context of the temporary canvas is taken to
  exist, as the source does (\<open>getContext('2d')!\<close>). No field of the component is
  assigned.\<close>

definition tempCanvas :: "browser \<Rightarrow> component \<Rightarrow> canvas_element" where
  "tempCanvas B s =
     (let BACKGROUND_COLOR = ''#FFFFFF'';
          t0 = blank_canvas (bitmap (canvas s));
          t1 = set_fillStyle B BACKGROUND_COLOR t0;
          t2 = fillRect t1
      in drawImage (bitmap (canvas s)) t2)"

definition downloadCanvas :: "browser \<Rightarrow> component \<Rightarrow> anchor" where
  "downloadCanvas B s =
     \<lparr>href = toDataURL B (bitmap (tempCanvas B s)), download = ''sketchy.png''\<rparr>"

subsection \<open>Keyboard shortcuts\<close>

text \<open>\<open>toLowerCase\<close> on the letters \<open>A\<close> to \<open>Z\<close>; no other character becomes \<open>y\<close> or
  \<open>z\<close>, the only letters the result is compared with.\<close>

definition toLowerCase :: "string \<Rightarrow> string" where
  "toLowerCase str =
     map (\<lambda>c. let n = (of_char c :: nat) in if 65 \<le> n \<and> n \<le> 90 then char_of (n + 32) else c) str"

text \<open>The second component of the result: whether \<open>event.preventDefault()\<close> was called.\<close>

definition handleKeyboardEvent :: "browser \<Rightarrow> KeyboardEvent \<Rightarrow> component \<Rightarrow> component \<times> bool" where
  "handleKeyboardEvent B ev s =
     (if ctrlKey ev \<and> \<not> shiftKey ev \<and> toLowerCase (key ev) = ''z'' then (undoCanvas s, True)
      else if (ctrlKey ev \<and> toLowerCase (key ev) = ''y'')
              \<or> (ctrlKey ev \<and> shiftKey ev \<and> toLowerCase (key ev) = ''z'')
        then (redoCanvas s, True)
      else if key ev = ''Delete'' \<or> key ev = ''Backspace'' then (clearCanvas B s, True)
      else (s, False))"

section \<open>The component as the browser drives it\<close>

text \<open>
  Angular calls the handlers (\<open>@HostListener\<close>) and the public methods one at a time,
  and the browser runs a pending \<open>onload\<close> callback between two of them. An exception
  thrown by a handler ends that handler only: the component stays as it was, since no
  handler has assigned anything before the one place where it can throw.
\<close>

datatype input =
    MouseDown DOMRect event
  | MouseMove DOMRect event
  | MouseUp DOMRect "event option"
  | TouchStart DOMRect event
  | TouchMove DOMRect event
  | TouchEnd DOMRect "event option"
  | KeyDown KeyboardEvent
  | ShapeSelected string
  | ColorChanged string
  | BackgroundColorSelected string
  | ClearCanvas
  | UndoCanvas
  | RedoCanvas
  | DownloadCanvas
  | ImageLoaded nat

definition keep :: "component \<Rightarrow> error + component \<Rightarrow> component" where
  "keep s res = (case res of Inl _ \<Rightarrow> s | Inr s' \<Rightarrow> s')"

fun step :: "browser \<Rightarrow> input \<Rightarrow> component \<Rightarrow> component" where
  "step B (MouseDown r ev) s = keep s (onMouseDown r ev s)"
| "step B (MouseMove r ev) s = keep s (onMouseMove B r ev s)"
| "step B (MouseUp r we) s = keep s (onMouseUp B r we s)"
| "step B (TouchStart r ev) s = keep s (onTouchStart r ev s)"
| "step B (TouchMove r ev) s = keep s (onTouchMove B r ev s)"
| "step B (TouchEnd r we) s = keep s (onTouchEnd B r we s)"
| "step B (KeyDown ev) s = fst (handleKeyboardEvent B ev s)"
| "step B (ShapeSelected shape) s = onShapeSelected shape s"
| "step B (ColorChanged color) s = changeColor B color s"
| "step B (BackgroundColorSelected color) s = onBackgroundColorSelected B color s"
| "step B ClearCanvas s = clearCanvas B s"
| "step B UndoCanvas s = undoCanvas s"
| "step B RedoCanvas s = redoCanvas s"
| "step B DownloadCanvas s = s"
| "step B (ImageLoaded i) s = img_onload B i s"

text \<open>The states of a component whose \<open>ngOnInit\<close> has returned.\<close>

inductive reachable :: "browser \<Rightarrow> component \<Rightarrow> bool" for B :: browser where
  initial: "initializeCanvas B True (new_component like) = Inr s \<Longrightarrow> reachable B s"
| after: "reachable B s \<Longrightarrow> reachable B (step B i s)"

definition run :: "browser \<Rightarrow> input list \<Rightarrow> component \<Rightarrow> component" where
  "run B inputs s = foldl (\<lambda>s i. step B i s) s inputs"

subsection \<open>One drawing session with the mouse\<close>

definition then_do :: "error + 'a \<Rightarrow> ('a \<Rightarrow> error + 'b) \<Rightarrow> error + 'b" where
  "then_do res f = (case res of Inl e \<Rightarrow> Inl e | Inr x \<Rightarrow> f x)"

fun mouse_moves :: "browser \<Rightarrow> DOMRect \<Rightarrow> event list \<Rightarrow> component \<Rightarrow> error + component" where
  "mouse_moves B r [] s = Inr s"
| "mouse_moves B r (ev # evs) s = then_do (onMouseMove B r ev s) (mouse_moves B r evs)"

text \<open>A press, the moves that follow it, and the release, on which \<open>window.event\<close> is
  \<open>window_event\<close>.\<close>

definition mouse_session ::
  "browser \<Rightarrow> DOMRect \<Rightarrow> event \<Rightarrow> event list \<Rightarrow> event option \<Rightarrow> component \<Rightarrow> error + component" where
  "mouse_session B r down moves window_event s =
     then_do (onMouseDown r down s)
       (\<lambda>s1. then_do (mouse_moves B r moves s1) (onMouseUp B r window_event))"

definition committed_path :: "error + component \<Rightarrow> pathcmd list option" where
  "committed_path res = (case res of Inl _ \<Rightarrow> None | Inr s \<Rightarrow> Some (path (canvas s)))"

section \<open>Properties of the history\<close>

definition hist_inv :: "component \<Rightarrow> bool" where
  "hist_inv s \<longleftrightarrow>
     1 \<le> length (undoStack s) \<and> length (undoStack s) + length (redoStack s) \<le> 10"

definition top_is_current :: "browser \<Rightarrow> component \<Rightarrow> bool" where
  "top_is_current B s \<longleftrightarrow>
     undoStack s \<noteq> [] \<and> last (undoStack s) = toDataURL B (bitmap (canvas s))"

text \<open>A handler has left both stacks alone.\<close>

definition history_kept :: "component \<Rightarrow> component \<Rightarrow> bool" where
  "history_kept s s' \<longleftrightarrow> undoStack s' = undoStack s \<and> redoStack s' = redoStack s"

section \<open>A browser and states to evaluate on\<close>

text \<open>
  A browser small enough to compute with: a data URL is \<open>data:\<close> followed by the four
  channel bytes of every pixel, decoding reads them back, a stroke of a non-empty path
  paints the stroke colour over the whole (one-pixel) surface, and only \<open>#rrggbb\<close>
  colours are known.
\<close>

definition px_chars :: "pixel \<Rightarrow> string" where
  "px_chars p =
     [char_of (unat (red p)), char_of (unat (green p)),
      char_of (unat (blue p)), char_of (unat (alpha p))]"

fun unpack :: "string \<Rightarrow> bitmap option" where
  "unpack [] = Some []"
| "unpack (r # g # b # a # cs) =
     map_option
       ((#) (RGBA (of_nat (of_char r)) (of_nat (of_char g)) (of_nat (of_char b)) (of_nat (of_char a))))
       (unpack cs)"
| "unpack _ = None"

definition sample_browser :: browser where
  "sample_browser =
     \<lparr>toDataURL = (\<lambda>bm. ''data:'' @ concat (map px_chars bm)),
      decode = (\<lambda>url. if take 5 url = ''data:'' then unpack (drop 5 url) else None),
      rasterize = (\<lambda>p c bm. if p = [] then bm else map (source_over c) bm),
      other_color = (\<lambda>_. None)\<rparr>"

definition sample_rect :: DOMRect where
  "sample_rect = \<lparr>rect_left = 10, rect_top = 20\<rparr>"

text \<open>A one-pixel canvas after \<open>ngOnInit\<close>; the same with the line tool selected; and
  the same in the middle of a freehand stroke, the button still down.\<close>

definition sample_initial :: component where
  "sample_initial = clearCanvas sample_browser (new_component [transparent_black])"

definition sample_line :: component where
  "sample_line = step sample_browser (ShapeSelected ''line'') sample_initial"

definition sample_midstroke :: component where
  "sample_midstroke =
     step sample_browser (MouseMove sample_rect (MouseEvent 15 25))
       (step sample_browser (MouseDown sample_rect (MouseEvent 10 20)) sample_initial)"

text \<open>Nine changes of the background colour after \<open>ngOnInit\<close>: ten snapshots, white
  and black in turn, the last one black.\<close>

definition sample_full :: component where
  "sample_full =
     run sample_browser
       [BackgroundColorSelected ''#000000'', BackgroundColorSelected ''#ffffff'',
        BackgroundColorSelected ''#000000'', BackgroundColorSelected ''#ffffff'',
        BackgroundColorSelected ''#000000'', BackgroundColorSelected ''#ffffff'',
        BackgroundColorSelected ''#000000'', BackgroundColorSelected ''#ffffff'',
        BackgroundColorSelected ''#000000'']
       sample_initial"

text \<open>A two-pixel canvas as a shape preview leaves it: \<open>redraw\<close> has cleared it and a
  half-transparent red stroke has reached the second pixel only.\<close>

definition sample_translucent :: component where
  "sample_translucent =
     (new_component [transparent_black, transparent_black])
       \<lparr>canvas := (blank_canvas [transparent_black, transparent_black])
                    \<lparr>bitmap := [transparent_black, RGBA 255 0 0 128]\<rparr>,
        undoStack := [toDataURL sample_browser [opaque_white, opaque_white]]\<rparr>"

text \<open>The line tool selected and a finger put down.\<close>

definition sample_touching :: component where
  "sample_touching = step sample_browser (TouchStart sample_rect (TouchEvent [(10, 20)])) sample_line"

text \<open>The freehand stroke committed by a release of the button; and that state after
  \<open>Ctrl+Z\<close> and \<open>Ctrl+Y\<close> whose two image loads complete in the reverse of the order
  in which they were requested.\<close>

definition sample_committed :: component where
  "sample_committed =
     step sample_browser (MouseUp sample_rect (Some (MouseEvent 15 25))) sample_midstroke"

definition sample_out_of_order :: component where
  "sample_out_of_order =
     run sample_browser [UndoCanvas, RedoCanvas, ImageLoaded 1, ImageLoaded 0] sample_committed"

section \<open>Lemmas\<close>

subsection \<open>Pixels\<close>

lemma unat8_le: "unat (x :: channel) \<le> 255"
  using unsigned_less [of x, where ?'a = nat] by simp

lemma unat8_mod: "unat (x :: channel) mod 256 = unat x"
  using unat8_le [of x] by simp

lemma min_255_unat8: "min 255 (unat (x :: channel)) = unat x"
  using unat8_le [of x] by simp

lemma source_over_transparent: "source_over s transparent_black = s"
  by (cases s) (simp add: source_over_def transparent_black_def mix_def Let_def min_255_unat8)

lemma alpha_source_over_opaque: "alpha b = 255 \<Longrightarrow> alpha (source_over s b) = 255"
  using unat8_le [of "alpha s"] by (auto simp add: source_over_def Let_def)

lemma source_over_invisible: "alpha s = 0 \<Longrightarrow> alpha b \<noteq> 0 \<Longrightarrow> source_over s b = b"
  by (cases b) (simp add: source_over_def Let_def mix_def unat_eq_0 min_255_unat8)

lemma length_overlay: "length (overlay img bs) = length bs"
  by (induction img bs rule: overlay.induct) simp_all

lemma overlay_same_length: "length img = length bs \<Longrightarrow> overlay img bs = map2 source_over img bs"
  by (induction img bs rule: list_induct2) simp_all

lemma overlay_cleared:
  "length img = length bs \<Longrightarrow> overlay img (map (\<lambda>_. transparent_black) bs) = img"
  by (induction img bs rule: list_induct2) (simp_all add: source_over_transparent)

lemma hex_color_white: "hex_color ''#FFFFFF'' = Some opaque_white"
  by (simp add: hex_color_def hex_byte_def hex_digit_def opaque_white_def)

lemma hex_color_white_lower: "hex_color ''#ffffff'' = Some opaque_white"
  by (simp add: hex_color_def hex_byte_def hex_digit_def opaque_white_def)

subsection \<open>The sample browser decodes what it encodes\<close>

lemma unpack_px_chars: "unpack (px_chars p @ cs) = map_option ((#) p) (unpack cs)"
  by (cases p) (simp add: px_chars_def unat8_mod)

lemma unpack_concat: "unpack (concat (map px_chars bm)) = Some bm"
  by (induction bm) (simp_all add: unpack_px_chars)

lemma sample_decode_toDataURL: "decode sample_browser (toDataURL sample_browser bm) = Some bm"
  by (simp add: sample_browser_def unpack_concat)

subsection \<open>The history under each operation\<close>

lemma saveState_undoStack:
  "undoStack (saveState B s) =
     (if length (undoStack s) < 10 then undoStack s else drop 1 (undoStack s))
       @ [toDataURL B (bitmap (canvas s))]"
  by (cases "undoStack s") (simp_all add: saveState_def Let_def drop_Suc)

lemma saveState_redoStack: "redoStack (saveState B s) = []"
  by (simp add: saveState_def Let_def)

lemma saveState_other:
  "canvas (saveState B s) = canvas s" "pending (saveState B s) = pending s"
  "drawing (saveState B s) = drawing s" "selectedShape (saveState B s) = selectedShape s"
  "startX (saveState B s) = startX s" "startY (saveState B s) = startY s"
  "backgroundColor (saveState B s) = backgroundColor s"
  by (simp_all add: saveState_def Let_def)

lemma saveState_length:
  "length (undoStack (saveState B s)) =
     (if length (undoStack s) < 10 then Suc (length (undoStack s)) else length (undoStack s))"
  by (auto simp add: saveState_undoStack)

lemma saveState_hist_inv: "length (undoStack s) \<le> 10 \<Longrightarrow> hist_inv (saveState B s)"
  by (simp add: hist_inv_def saveState_length saveState_redoStack)

lemma saveState_top: "top_is_current B (saveState B s)"
  by (simp add: top_is_current_def saveState_undoStack saveState_other)

lemma undoCanvas_hist_inv: "hist_inv s \<Longrightarrow> hist_inv (undoCanvas s)"
  by (auto simp add: hist_inv_def undoCanvas_def restoreCanvas_def Let_def)

lemma redoCanvas_hist_inv: "hist_inv s \<Longrightarrow> hist_inv (redoCanvas s)"
  by (cases "redoStack s" rule: rev_cases)
    (auto simp add: hist_inv_def redoCanvas_def restoreCanvas_def Let_def)

lemma clearCanvas_hist_inv: "hist_inv s \<Longrightarrow> hist_inv (clearCanvas B s)"
  unfolding clearCanvas_def by (rule saveState_hist_inv) (simp add: hist_inv_def)

lemma drawShape_stacks:
  "undoStack (drawShape B sx sy ex ey s) = undoStack s"
  "redoStack (drawShape B sx sy ex ey s) = redoStack s"
  by (simp_all add: drawShape_def Let_def)

lemma stopDrawing_stacks:
  "undoStack (stopDrawing s) = undoStack s" "redoStack (stopDrawing s) = redoStack s"
  by (simp_all add: stopDrawing_def Let_def)

lemma redraw_stacks:
  "undoStack (redraw s) = undoStack s" "redoStack (redraw s) = redoStack s"
  by (simp_all add: redraw_def Let_def)

lemma img_onload_stacks:
  "undoStack (img_onload B i s) = undoStack s" "redoStack (img_onload B i s) = redoStack s"
  by (simp_all add: img_onload_def Let_def split: image_load.splits option.splits)

lemma onMouseDown_history: "onMouseDown r ev s = Inr s' \<Longrightarrow> history_kept s s'"
  by (auto simp add: onMouseDown_def history_kept_def Let_def split: sum.splits if_splits)

lemma onTouchStart_history: "onTouchStart r ev s = Inr s' \<Longrightarrow> history_kept s s'"
  by (auto simp add: onTouchStart_def history_kept_def Let_def split: sum.splits if_splits)

lemma onMouseMove_history: "onMouseMove B r ev s = Inr s' \<Longrightarrow> history_kept s s'"
  by (auto simp add: onMouseMove_def history_kept_def drawShape_stacks redraw_stacks
      split: sum.splits if_splits)

lemma onTouchMove_history: "onTouchMove B r ev s = Inr s' \<Longrightarrow> history_kept s s'"
  by (auto simp add: onTouchMove_def history_kept_def drawShape_stacks redraw_stacks
      split: sum.splits if_splits)

lemma onMouseUp_history:
  "onMouseUp B r we s = Inr s' \<Longrightarrow>
     (\<not> drawing s \<and> s' = s) \<or> (drawing s \<and> (\<exists>t. s' = saveState B t \<and> history_kept s t))"
  by (auto simp add: onMouseUp_def history_kept_def Let_def drawShape_stacks stopDrawing_stacks
      split: sum.splits if_splits)

lemma onTouchEnd_history:
  "onTouchEnd B r we s = Inr s' \<Longrightarrow>
     (\<not> drawing s \<and> s' = s) \<or> (drawing s \<and> (\<exists>t. s' = saveState B t \<and> history_kept s t))"
  by (auto simp add: onTouchEnd_def history_kept_def Let_def drawShape_stacks stopDrawing_stacks
      split: sum.splits if_splits)

lemma history_kept_hist_inv: "hist_inv s \<Longrightarrow> history_kept s s' \<Longrightarrow> hist_inv s'"
  by (simp add: hist_inv_def history_kept_def)

lemma snapshot_hist_inv: "hist_inv s \<Longrightarrow> history_kept s t \<Longrightarrow> hist_inv (saveState B t)"
  by (rule saveState_hist_inv) (simp add: hist_inv_def history_kept_def)

lemma onMouseUp_hist_inv: "hist_inv s \<Longrightarrow> onMouseUp B r we s = Inr s' \<Longrightarrow> hist_inv s'"
  by (drule onMouseUp_history) (auto intro: snapshot_hist_inv)

lemma onTouchEnd_hist_inv: "hist_inv s \<Longrightarrow> onTouchEnd B r we s = Inr s' \<Longrightarrow> hist_inv s'"
  by (drule onTouchEnd_history) (auto intro: snapshot_hist_inv)

lemma handleKeyboardEvent_hist_inv: "hist_inv s \<Longrightarrow> hist_inv (fst (handleKeyboardEvent B ev s))"
  by (simp add: handleKeyboardEvent_def undoCanvas_hist_inv redoCanvas_hist_inv clearCanvas_hist_inv)

lemma onBackgroundColorSelected_hist_inv:
  "hist_inv s \<Longrightarrow> hist_inv (onBackgroundColorSelected B color s)"
  unfolding onBackgroundColorSelected_def
  by (rule clearCanvas_hist_inv) (simp add: hist_inv_def)

lemma onShapeSelected_hist_inv: "hist_inv s \<Longrightarrow> hist_inv (onShapeSelected shape s)"
  by (simp add: hist_inv_def onShapeSelected_def)

lemma changeColor_hist_inv: "hist_inv s \<Longrightarrow> hist_inv (changeColor B color s)"
  by (simp add: hist_inv_def changeColor_def)

lemma img_onload_hist_inv: "hist_inv s \<Longrightarrow> hist_inv (img_onload B i s)"
  by (simp add: hist_inv_def img_onload_stacks)

lemma keep_hist_inv:
  "hist_inv s \<Longrightarrow> (\<And>s'. res = Inr s' \<Longrightarrow> hist_inv s') \<Longrightarrow> hist_inv (keep s res)"
  by (cases res) (simp_all add: keep_def)

lemma step_hist_inv:
  assumes "hist_inv s"
  shows "hist_inv (step B i s)"
proof (cases i)
  case (MouseDown r ev)
  show ?thesis unfolding MouseDown step.simps
    by (rule keep_hist_inv [OF assms]) (rule history_kept_hist_inv [OF assms onMouseDown_history])
next
  case (MouseMove r ev)
  show ?thesis unfolding MouseMove step.simps
    by (rule keep_hist_inv [OF assms]) (rule history_kept_hist_inv [OF assms onMouseMove_history])
next
  case (MouseUp r we)
  show ?thesis unfolding MouseUp step.simps
    by (rule keep_hist_inv [OF assms]) (rule onMouseUp_hist_inv [OF assms])
next
  case (TouchStart r ev)
  show ?thesis unfolding TouchStart step.simps
    by (rule keep_hist_inv [OF assms]) (rule history_kept_hist_inv [OF assms onTouchStart_history])
next
  case (TouchMove r ev)
  show ?thesis unfolding TouchMove step.simps
    by (rule keep_hist_inv [OF assms]) (rule history_kept_hist_inv [OF assms onTouchMove_history])
next
  case (TouchEnd r we)
  show ?thesis unfolding TouchEnd step.simps
    by (rule keep_hist_inv [OF assms]) (rule onTouchEnd_hist_inv [OF assms])
qed (simp_all add: assms handleKeyboardEvent_hist_inv onShapeSelected_hist_inv
      changeColor_hist_inv onBackgroundColorSelected_hist_inv clearCanvas_hist_inv
      undoCanvas_hist_inv redoCanvas_hist_inv img_onload_hist_inv)

lemma initial_hist_inv: "initializeCanvas B True (new_component like) = Inr s \<Longrightarrow> hist_inv s"
  by (auto simp add: initializeCanvas_def clearCanvas_def new_component_def intro!: saveState_hist_inv)

lemma reachable_hist_inv: "reachable B s \<Longrightarrow> hist_inv s"
  by (induction rule: reachable.induct) (simp_all add: initial_hist_inv step_hist_inv)

subsection \<open>The sample states, evaluated\<close>

lemma css_color_white_lower: "css_color B ''#ffffff'' = Some opaque_white"
  by (simp add: css_color_def hex_color_white_lower)

lemma css_color_white: "css_color B ''#FFFFFF'' = Some opaque_white"
  by (simp add: css_color_def hex_color_white)

lemma css_color_black: "css_color B ''#000000'' = Some opaque_black"
  by (simp add: css_color_def hex_color_def hex_byte_def hex_digit_def opaque_black_def)

lemma source_over_opaque_source: "alpha s = 255 \<Longrightarrow> source_over s b = s"
  by (cases s) (simp add: source_over_def mix_def Let_def min_255_unat8)

lemma black_over_white: "source_over opaque_black opaque_white = opaque_black"
  by (simp add: source_over_opaque_source opaque_black_def)

lemma white_over_black: "source_over opaque_white opaque_black = opaque_white"
  by (simp add: source_over_opaque_source opaque_white_def)

lemma white_over_white: "source_over opaque_white opaque_white = opaque_white"
  by (simp add: source_over_opaque_source opaque_white_def)

lemma sample_rasterize:
  "rasterize sample_browser p c bm = (if p = [] then bm else map (source_over c) bm)"
  by (simp add: sample_browser_def)

lemma sample_toDataURL_nonempty: "toDataURL sample_browser bm \<noteq> []"
  by (simp add: sample_browser_def)

lemma sample_initial_eq:
  "sample_initial =
     \<lparr>canvas = \<lparr>bitmap = [opaque_white], fillStyle = opaque_white,
                strokeStyle = opaque_black, path = []\<rparr>,
      drawing = False, selectedShape = ''freehand'', startX = 0, startY = 0,
      undoStack = [toDataURL sample_browser [opaque_white]], redoStack = [],
      backgroundColor = ''#ffffff'', pending = []\<rparr>"
  by (simp add: sample_initial_def clearCanvas_def new_component_def saveState_def blank_canvas_def
      fillRect_def set_fillStyle_def css_color_white_lower source_over_transparent)

lemma sample_line_eq: "sample_line = sample_initial\<lparr>selectedShape := ''line''\<rparr>"
  by (simp add: sample_line_def onShapeSelected_def)

lemma sample_midstroke_eq:
  "sample_midstroke =
     \<lparr>canvas = \<lparr>bitmap = [opaque_black], fillStyle = opaque_white,
                strokeStyle = opaque_black, path = [MoveTo 0 0, LineTo 5 5]\<rparr>,
      drawing = True, selectedShape = ''freehand'', startX = 0, startY = 0,
      undoStack = [toDataURL sample_browser [opaque_white]], redoStack = [],
      backgroundColor = ''#ffffff'', pending = []\<rparr>"
  by (simp add: sample_midstroke_def sample_initial_eq sample_rect_def onMouseDown_def
      onMouseMove_def getCanvasCoordinates_def keep_def beginPath_def moveTo_def lineTo_def
      stroke_def sample_rasterize black_over_white)

lemma sample_full_eq:
  "sample_full =
     \<lparr>canvas = \<lparr>bitmap = [opaque_black], fillStyle = opaque_black,
                strokeStyle = opaque_black, path = []\<rparr>,
      drawing = False, selectedShape = ''freehand'', startX = 0, startY = 0,
      undoStack =
        [toDataURL sample_browser [opaque_white], toDataURL sample_browser [opaque_black],
         toDataURL sample_browser [opaque_white], toDataURL sample_browser [opaque_black],
         toDataURL sample_browser [opaque_white], toDataURL sample_browser [opaque_black],
         toDataURL sample_browser [opaque_white], toDataURL sample_browser [opaque_black],
         toDataURL sample_browser [opaque_white], toDataURL sample_browser [opaque_black]],
      redoStack = [], backgroundColor = ''#000000'', pending = []\<rparr>"
  by (simp add: sample_full_def run_def sample_initial_eq onBackgroundColorSelected_def
      clearCanvas_def saveState_def fillRect_def set_fillStyle_def css_color_white_lower
      css_color_black black_over_white white_over_black)

lemma reachable_run: "reachable B s \<Longrightarrow> reachable B (run B inputs s)"
  unfolding run_def by (induction inputs arbitrary: s) (simp_all add: reachable.after)

lemma reachable_sample_initial: "reachable sample_browser sample_initial"
  by (rule reachable.initial [where like = "[transparent_black]"])
    (simp add: initializeCanvas_def sample_initial_def)

lemma reachable_sample_full: "reachable sample_browser sample_full"
  unfolding sample_full_def by (rule reachable_run [OF reachable_sample_initial])

lemma reachable_sample_midstroke: "reachable sample_browser sample_midstroke"
  unfolding sample_midstroke_def by (intro reachable.after reachable_sample_initial)

lemma reachable_sample_line: "reachable sample_browser sample_line"
  unfolding sample_line_def by (intro reachable.after reachable_sample_initial)

subsection \<open>Undo, redo and the image loads they leave behind\<close>

lemma undoCanvas_eq:
  assumes "1 < length (undoStack s)"
  shows "undoCanvas s =
     s\<lparr>undoStack := butlast (undoStack s),
       redoStack := redoStack s @ [last (undoStack s)],
       pending := pending s @ [RestoreLoad (last (butlast (undoStack s)))]\<rparr>"
proof -
  have "butlast (undoStack s) \<noteq> []"
    using assms by (cases "undoStack s" rule: rev_cases) auto
  then have "butlast (undoStack s) ! (length (butlast (undoStack s)) - 1)
      = last (butlast (undoStack s))"
    by (simp add: last_conv_nth)
  then show ?thesis
    using assms by (simp add: undoCanvas_def restoreCanvas_def Let_def)
qed

lemma redoCanvas_eq:
  assumes "redoStack s \<noteq> []"
  shows "redoCanvas s =
     s\<lparr>redoStack := butlast (redoStack s),
       undoStack := undoStack s @ [last (redoStack s)],
       pending := pending s @ [RestoreLoad (last (redoStack s))]\<rparr>"
  using assms by (simp add: redoCanvas_def restoreCanvas_def Let_def)

lemma bitmap_restore:
  "length img = length (bitmap c) \<Longrightarrow> bitmap (drawImage img (clearRect c)) = img"
  by (simp add: drawImage_def clearRect_def overlay_cleared)

lemma img_onload_restore:
  assumes "pending s = ps @ RestoreLoad url # qs" and "decode B url = Some img"
  shows "img_onload B (length ps) s =
     s\<lparr>pending := ps @ qs, canvas := drawImage img (clearRect (canvas s))\<rparr>"
  using assms by (simp add: img_onload_def Let_def nth_append)

lemma length_bitmap_img_onload:
  "length (bitmap (canvas (img_onload B i s))) = length (bitmap (canvas s))"
  by (simp add: img_onload_def Let_def drawImage_def clearRect_def length_overlay
      split: image_load.splits option.splits)

lemma pending_img_onload:
  "pending (img_onload B (length ps) (s\<lparr>pending := ps @ l # qs\<rparr>)) = ps @ qs"
  by (simp add: img_onload_def Let_def nth_append split: image_load.splits option.splits)

lemma sample_committed_eq:
  "sample_committed =
     \<lparr>canvas = \<lparr>bitmap = [opaque_black], fillStyle = opaque_white,
                strokeStyle = opaque_black, path = [MoveTo 0 0, LineTo 5 5, ClosePath]\<rparr>,
      drawing = False, selectedShape = ''freehand'', startX = 0, startY = 0,
      undoStack = [toDataURL sample_browser [opaque_white],
                   toDataURL sample_browser [opaque_black]],
      redoStack = [], backgroundColor = ''#ffffff'', pending = []\<rparr>"
  by (simp add: sample_committed_def sample_midstroke_eq onMouseUp_def getCanvasCoordinates_def
      keep_def stopDrawing_def closePath_def saveState_def)

lemma sample_committed_snapshot:
  "sample_committed = saveState sample_browser (stopDrawing sample_midstroke)"
  by (simp add: sample_committed_def onMouseUp_def getCanvasCoordinates_def keep_def
      sample_midstroke_eq)

lemma reachable_sample_committed: "reachable sample_browser sample_committed"
  unfolding sample_committed_def by (intro reachable.after reachable_sample_midstroke)

lemma reachable_sample_out_of_order: "reachable sample_browser sample_out_of_order"
  unfolding sample_out_of_order_def by (rule reachable_run [OF reachable_sample_committed])

lemma sample_redone_eq:
  "redoCanvas (undoCanvas sample_committed) =
     sample_committed
       \<lparr>pending := [RestoreLoad (toDataURL sample_browser [opaque_white]),
                    RestoreLoad (toDataURL sample_browser [opaque_black])]\<rparr>"
  by (simp add: sample_committed_eq undoCanvas_def redoCanvas_def restoreCanvas_def Let_def)

lemma sample_out_of_order_eq:
  "sample_out_of_order =
     img_onload sample_browser 0 (img_onload sample_browser 1
       (redoCanvas (undoCanvas sample_committed)))"
  by (simp add: sample_out_of_order_def run_def)

subsection \<open>Shapes and sessions\<close>

lemma path_drawShape:
  "path (canvas (drawShape B sx sy ex ey s)) =
     (if selectedShape s = ''line'' then [MoveTo sx sy, LineTo ex ey]
      else if selectedShape s = ''rectangle'' then [Rect sx sy (ex - sx) (ey - sy)]
      else if selectedShape s = ''circle''
        then [Arc sx sy (sqrt ((ex - sx)\<^sup>2 + (ey - sy)\<^sup>2)) 0 (2 * pi)]
      else [])"
  by (simp add: drawShape_def Let_def stroke_def beginPath_def moveTo_def lineTo_def rect_def
      arc_def)

lemma drawShape_session:
  "drawing (drawShape B sx sy ex ey s) = drawing s"
  "selectedShape (drawShape B sx sy ex ey s) = selectedShape s"
  "startX (drawShape B sx sy ex ey s) = startX s"
  "startY (drawShape B sx sy ex ey s) = startY s"
  by (simp_all add: drawShape_def Let_def)

lemma redraw_session:
  "drawing (redraw s) = drawing s" "selectedShape (redraw s) = selectedShape s"
  "startX (redraw s) = startX s" "startY (redraw s) = startY s"
  by (simp_all add: redraw_def Let_def)

lemma onMouseMove_MouseEvent:
  "\<exists>s'. onMouseMove B r (MouseEvent x y) s = Inr s' \<and> drawing s' = drawing s
     \<and> selectedShape s' = selectedShape s \<and> startX s' = startX s \<and> startY s' = startY s"
  by (simp add: onMouseMove_def getCanvasCoordinates_def drawShape_session redraw_session)

lemma mouse_moves_MouseEvents:
  "\<exists>s'. mouse_moves B r (map (\<lambda>(x, y). MouseEvent x y) ms) s = Inr s'
     \<and> drawing s' = drawing s \<and> selectedShape s' = selectedShape s
     \<and> startX s' = startX s \<and> startY s' = startY s"
proof (induction ms arbitrary: s)
  case Nil
  show ?case by simp
next
  case (Cons m ms)
  obtain x y where m: "m = (x, y)"
    by (cases m)
  obtain s1 where s1: "onMouseMove B r (MouseEvent x y) s = Inr s1" "drawing s1 = drawing s"
      "selectedShape s1 = selectedShape s" "startX s1 = startX s" "startY s1 = startY s"
    using onMouseMove_MouseEvent [of B r x y s] by blast
  obtain s' where "mouse_moves B r (map (\<lambda>(x, y). MouseEvent x y) ms) s1 = Inr s'"
      "drawing s' = drawing s1" "selectedShape s' = selectedShape s1"
      "startX s' = startX s1" "startY s' = startY s1"
    using Cons.IH [of s1] by blast
  then show ?case
    by (simp add: m s1 then_do_def)
qed

lemma onMouseUp_shape:
  assumes "drawing s" and "selectedShape s \<noteq> ''freehand''"
  shows "onMouseUp B r (Some (MouseEvent ux uy)) s =
     Inr (saveState B (stopDrawing
       (drawShape B (startX s) (startY s) (ux - rect_left r) (uy - rect_top r) s)))"
  using assms by (simp add: onMouseUp_def getCanvasCoordinates_def)

lemma stopDrawing_shape:
  "selectedShape s \<noteq> ''freehand'' \<Longrightarrow> stopDrawing s = s\<lparr>drawing := False\<rparr>"
  by (simp add: stopDrawing_def)

lemma mouse_session_shape:
  assumes "selectedShape s \<noteq> ''freehand''"
  shows "\<exists>s'. mouse_session B r (MouseEvent dx dy) (map (\<lambda>(x, y). MouseEvent x y) ms)
                (Some (MouseEvent ux uy)) s = Inr s'
           \<and> path (canvas s') =
               path (canvas (drawShape B (dx - rect_left r) (dy - rect_top r)
                                         (ux - rect_left r) (uy - rect_top r) s))
           \<and> \<not> drawing s' \<and> top_is_current B s'"
proof -
  define s1 where
    "s1 = s\<lparr>startX := dx - rect_left r, startY := dy - rect_top r, drawing := True\<rparr>"
  have down: "onMouseDown r (MouseEvent dx dy) s = Inr s1"
    using assms by (simp add: onMouseDown_def getCanvasCoordinates_def s1_def)
  obtain s2 where s2: "mouse_moves B r (map (\<lambda>(x, y). MouseEvent x y) ms) s1 = Inr s2"
      "drawing s2 = drawing s1" "selectedShape s2 = selectedShape s1"
      "startX s2 = startX s1" "startY s2 = startY s1"
    using mouse_moves_MouseEvents [of B r ms s1] by blast
  have shape2: "selectedShape s2 \<noteq> ''freehand''" and drawing2: "drawing s2"
    using assms by (simp_all add: s2 s1_def)
  define d where "d = drawShape B (startX s2) (startY s2) (ux - rect_left r) (uy - rect_top r) s2"
  define s' where "s' = saveState B (stopDrawing d)"
  have up: "onMouseUp B r (Some (MouseEvent ux uy)) s2 = Inr s'"
    unfolding s'_def d_def by (rule onMouseUp_shape [OF drawing2 shape2])
  have shape_d: "selectedShape d \<noteq> ''freehand''"
    using shape2 by (simp add: d_def drawShape_session)
  have "path (canvas s') = path (canvas d)"
    by (simp add: s'_def saveState_other stopDrawing_shape [OF shape_d])
  also have "\<dots> = path (canvas (drawShape B (dx - rect_left r) (dy - rect_top r)
      (ux - rect_left r) (uy - rect_top r) s))"
    by (simp add: d_def path_drawShape s2 s1_def)
  finally have path: "path (canvas s') = path (canvas (drawShape B (dx - rect_left r)
      (dy - rect_top r) (ux - rect_left r) (uy - rect_top r) s))" .
  have "\<not> drawing s'"
    by (simp add: s'_def saveState_other stopDrawing_shape [OF shape_d])
  moreover have "top_is_current B s'"
    by (simp add: s'_def saveState_top)
  moreover have "mouse_session B r (MouseEvent dx dy) (map (\<lambda>(x, y). MouseEvent x y) ms)
      (Some (MouseEvent ux uy)) s = Inr s'"
    by (simp add: mouse_session_def then_do_def down s2 up)
  ultimately show ?thesis
    using path by blast
qed

lemma onTouchEnd_no_touch_left: "drawing s \<Longrightarrow> onTouchEnd B r (Some (TouchEvent [])) s = Inl TypeError"
  by (simp add: onTouchEnd_def getCanvasCoordinates_def)

lemma sample_touching_eq:
  "sample_touching = sample_initial\<lparr>selectedShape := ''line'', drawing := True\<rparr>"
  by (simp add: sample_touching_def sample_line_eq sample_initial_eq onTouchStart_def
      getCanvasCoordinates_def keep_def sample_rect_def)

section \<open>The claims\<close>

text \<open>
  Claim C1. \<open>saveState\<close> appends the data URL of the current bitmap to the undo stack;
  when the stack already holds ten entries the oldest one, and only it, is dropped;
  the redo stack is left empty. A stack of at most ten entries, which is every stack of
  a running component, therefore still has at most ten afterwards.
\<close>

theorem saveState_appends_and_evicts:
  "undoStack (saveState B s) =
     (if length (undoStack s) < 10 then undoStack s else drop 1 (undoStack s))
       @ [toDataURL B (bitmap (canvas s))]
   \<and> redoStack (saveState B s) = []
   \<and> (length (undoStack s) \<le> 10 \<longrightarrow> length (undoStack (saveState B s)) \<le> 10)
   \<and> (reachable B s \<longrightarrow> length (undoStack (saveState B s)) \<le> 10)"
proof -
  have "length (undoStack (saveState B s)) \<le> 10" if "length (undoStack s) \<le> 10"
    using that by (simp add: saveState_length)
  moreover have "length (undoStack s) \<le> 10" if "reachable B s"
    using reachable_hist_inv [OF that] by (simp add: hist_inv_def)
  ultimately show ?thesis
    by (simp add: saveState_undoStack saveState_redoStack)
qed

theorem saveState_appends_and_evicts_witness:
  "length (undoStack sample_full) \<le> 10
   \<and> reachable sample_browser sample_full
   \<and> undoStack (saveState sample_browser sample_full) =
       drop 1 (undoStack sample_full) @ [toDataURL sample_browser [opaque_black]]
   \<and> redoStack (saveState sample_browser sample_full) = []
   \<and> length (undoStack (saveState sample_browser sample_full)) \<le> 10"
  using saveState_appends_and_evicts [of sample_browser sample_full] reachable_sample_full
  by (simp add: sample_full_eq)

text \<open>
  Claim C2. After every operation that takes a snapshot (\<open>saveState\<close> itself,
  \<open>clearCanvas\<close>, \<open>onBackgroundColorSelected\<close>, \<open>initializeCanvas\<close>, the clear
  shortcut, and a release handler that ends a drawing session), the undo stack is not
  empty and its last entry is the data URL of the bitmap as it then is.
\<close>

theorem committed_snapshot_is_current:
  "top_is_current B (saveState B s)
   \<and> top_is_current B (clearCanvas B s)
   \<and> top_is_current B (onBackgroundColorSelected B color s)
   \<and> (initializeCanvas B True s = Inr s1 \<longrightarrow> top_is_current B s1)
   \<and> (drawing s \<and> onMouseUp B r we s = Inr s2 \<longrightarrow> top_is_current B s2)
   \<and> (drawing s \<and> onTouchEnd B r' we' s = Inr s3 \<longrightarrow> top_is_current B s3)
   \<and> (key ev = ''Delete'' \<or> key ev = ''Backspace'' \<longrightarrow>
        top_is_current B (fst (handleKeyboardEvent B ev s)))"
proof -
  have clear: "top_is_current B (clearCanvas B t)" for t
    by (simp add: clearCanvas_def saveState_top)
  have up: "top_is_current B s2" if "drawing s" "onMouseUp B r we s = Inr s2"
    using onMouseUp_history [OF that(2)] that(1) by (auto simp add: saveState_top)
  have touch: "top_is_current B s3" if "drawing s" "onTouchEnd B r' we' s = Inr s3"
    using onTouchEnd_history [OF that(2)] that(1) by (auto simp add: saveState_top)
  have keys: "top_is_current B (fst (handleKeyboardEvent B ev s))"
    if "key ev = ''Delete'' \<or> key ev = ''Backspace''"
    using that by (auto simp add: handleKeyboardEvent_def toLowerCase_def clear)
  show ?thesis
    using up touch keys
    by (auto simp add: saveState_top clear onBackgroundColorSelected_def initializeCanvas_def)
qed

theorem committed_snapshot_is_current_witness:
  "initializeCanvas sample_browser True sample_midstroke
     = Inr (clearCanvas sample_browser sample_midstroke)
   \<and> drawing sample_midstroke
   \<and> onMouseUp sample_browser sample_rect (Some (MouseEvent 15 25)) sample_midstroke
       = Inr (saveState sample_browser (stopDrawing sample_midstroke))
   \<and> onTouchEnd sample_browser sample_rect (Some (TouchEvent [(15, 25)])) sample_midstroke
       = Inr (saveState sample_browser (stopDrawing sample_midstroke))
   \<and> key \<lparr>ctrlKey = False, shiftKey = False, key = ''Delete''\<rparr> = ''Delete''
   \<and> top_is_current sample_browser (clearCanvas sample_browser sample_midstroke)
   \<and> top_is_current sample_browser (saveState sample_browser (stopDrawing sample_midstroke))
   \<and> top_is_current sample_browser
       (fst (handleKeyboardEvent sample_browser
              \<lparr>ctrlKey = False, shiftKey = False, key = ''Delete''\<rparr> sample_midstroke))"
proof -
  have init: "initializeCanvas sample_browser True sample_midstroke
      = Inr (clearCanvas sample_browser sample_midstroke)"
    by (simp add: initializeCanvas_def)
  have d: "drawing sample_midstroke"
    by (simp add: sample_midstroke_eq)
  have up: "onMouseUp sample_browser sample_rect (Some (MouseEvent 15 25)) sample_midstroke
      = Inr (saveState sample_browser (stopDrawing sample_midstroke))"
    by (simp add: onMouseUp_def getCanvasCoordinates_def sample_midstroke_eq)
  have touch: "onTouchEnd sample_browser sample_rect (Some (TouchEvent [(15, 25)])) sample_midstroke
      = Inr (saveState sample_browser (stopDrawing sample_midstroke))"
    by (simp add: onTouchEnd_def getCanvasCoordinates_def sample_midstroke_eq)
  show ?thesis
    using committed_snapshot_is_current [of sample_browser sample_midstroke _
        "clearCanvas sample_browser sample_midstroke"
        sample_rect "Some (MouseEvent 15 25)"
        "saveState sample_browser (stopDrawing sample_midstroke)"
        sample_rect "Some (TouchEvent [(15, 25)])"
        "saveState sample_browser (stopDrawing sample_midstroke)"
        "\<lparr>ctrlKey = False, shiftKey = False, key = ''Delete''\<rparr>"]
      init d up touch
    by simp
qed

text \<open>
  Claim C3. \<open>undoCanvas\<close> on an undo stack of at most one entry and \<open>redoCanvas\<close> on an
  empty redo stack return the component as it was: both stacks, the bitmap and the
  pending image loads are unchanged. Neither function can raise.
\<close>

theorem undo_redo_at_floor_do_nothing:
  "(length (undoStack s) \<le> 1 \<longrightarrow> undoCanvas s = s)
   \<and> (redoStack s = [] \<longrightarrow> redoCanvas s = s)"
  by (simp add: undoCanvas_def redoCanvas_def)

theorem undo_redo_at_floor_do_nothing_witness:
  "length (undoStack sample_initial) \<le> 1 \<and> undoCanvas sample_initial = sample_initial
   \<and> redoStack sample_initial = [] \<and> redoCanvas sample_initial = sample_initial"
  using undo_redo_at_floor_do_nothing [of sample_initial]
  by (simp add: sample_initial_eq)

text \<open>
  Claim C4, as amended. \<open>saveState\<close>, \<open>undoCanvas\<close>, \<open>redoCanvas\<close> in a row leave the
  component as it was after the snapshot, both stacks included, but for two image loads
  they request: first the snapshot below the top, then the snapshot that was on top,
  which is the data URL of the bitmap. The calls themselves do not touch the canvas.
  When the first of the two loads completes the canvas is cleared and shows the lower
  snapshot; when the second completes after it, and the top snapshot decodes to the
  bitmap it was taken from, the component is exactly the one after the snapshot, the
  bitmap being the one before the undo. (With a single entry on the stack both calls
  do nothing.)
\<close>

theorem snapshot_undo_redo_in_request_order:
  "(let s1 = saveState B s; s3 = redoCanvas (undoCanvas s1); k = length (pending s);
        top = toDataURL B (bitmap (canvas s)); prev = last (butlast (undoStack s1))
    in last (undoStack s1) = top
       \<and> s3 = s1\<lparr>pending := pending s @
                   (if 1 < length (undoStack s1) then [RestoreLoad prev, RestoreLoad top]
                    else [])\<rparr>
       \<and> (1 < length (undoStack s1) \<longrightarrow>
            img_onload B k s3 =
              s1\<lparr>pending := pending s @ [RestoreLoad top],
                 canvas := (case decode B prev of
                              None \<Rightarrow> canvas s
                            | Some img \<Rightarrow> drawImage img (clearRect (canvas s)))\<rparr>
            \<and> (decode B top = Some (bitmap (canvas s)) \<longrightarrow>
                 img_onload B k (img_onload B k s3) = s1
                 \<and> bitmap (canvas (img_onload B k (img_onload B k s3))) = bitmap (canvas s))))"
proof -
  define s1 where "s1 = saveState B s"
  define s3 where "s3 = redoCanvas (undoCanvas s1)"
  define k where "k = length (pending s)"
  define top where "top = toDataURL B (bitmap (canvas s))"
  define prev where "prev = last (butlast (undoStack s1))"
  have last_s1: "last (undoStack s1) = top"
    by (simp add: s1_def top_def saveState_undoStack)
  have redo_s1: "redoStack s1 = []"
    by (simp add: s1_def saveState_redoStack)
  have pend_s1: "pending s1 = pending s" and canvas_s1: "canvas s1 = canvas s"
    by (simp_all add: s1_def saveState_other)
  have ne: "undoStack s1 \<noteq> []"
    by (simp add: s1_def saveState_undoStack)
  have s3_eq: "s3 = s1\<lparr>pending := pending s @
      (if 1 < length (undoStack s1) then [RestoreLoad prev, RestoreLoad top] else [])\<rparr>"
  proof (cases "1 < length (undoStack s1)")
    case False
    then have "s3 = s1"
      by (simp add: s3_def undoCanvas_def redoCanvas_def redo_s1)
    then show ?thesis
      using False by (simp add: pend_s1 [symmetric])
  next
    case True
    show ?thesis
      using ne True by (simp add: s3_def undoCanvas_eq [OF True] redoCanvas_eq redo_s1 pend_s1
          prev_def last_s1 [symmetric])
  qed
  have loads: "img_onload B k s3 =
        s1\<lparr>pending := pending s @ [RestoreLoad top],
           canvas := (case decode B prev of
                        None \<Rightarrow> canvas s
                      | Some img \<Rightarrow> drawImage img (clearRect (canvas s)))\<rparr>
      \<and> (decode B top = Some (bitmap (canvas s)) \<longrightarrow>
           img_onload B k (img_onload B k s3) = s1
           \<and> bitmap (canvas (img_onload B k (img_onload B k s3))) = bitmap (canvas s))"
    if long: "1 < length (undoStack s1)"
  proof -
    define s4 where "s4 = img_onload B k s3"
    have s3_long: "s3 = s1\<lparr>pending := pending s @ [RestoreLoad prev, RestoreLoad top]\<rparr>"
      using s3_eq long by simp
    have first: "s4 =
        s1\<lparr>pending := pending s @ [RestoreLoad top],
           canvas := (case decode B prev of
                        None \<Rightarrow> canvas s
                      | Some img \<Rightarrow> drawImage img (clearRect (canvas s)))\<rparr>"
      unfolding s4_def s3_long k_def
      by (simp add: img_onload_def Let_def nth_append canvas_s1 split: option.splits)
    have len_s4: "length (bitmap (canvas s4)) = length (bitmap (canvas s))"
      by (simp add: s4_def length_bitmap_img_onload s3_long canvas_s1)
    have styles: "(canvas s4)\<lparr>bitmap := bitmap (canvas s)\<rparr> = canvas s"
      unfolding first
      by (cases "canvas s") (simp add: drawImage_def clearRect_def split: option.splits)
    have second: "img_onload B k s4 = s1"
      if dec: "decode B top = Some (bitmap (canvas s))"
    proof -
      have "img_onload B k s4 =
          s4\<lparr>pending := pending s @ [],
             canvas := drawImage (bitmap (canvas s)) (clearRect (canvas s4))\<rparr>"
        unfolding k_def by (rule img_onload_restore [OF _ dec]) (simp add: first)
      moreover have "drawImage (bitmap (canvas s)) (clearRect (canvas s4)) = canvas s"
        using styles len_s4 by (simp add: drawImage_def clearRect_def overlay_cleared)
      ultimately have "img_onload B k s4 = s4\<lparr>pending := pending s, canvas := canvas s\<rparr>"
        by simp
      also have "\<dots> = s1"
        unfolding first by (simp add: pend_s1 [symmetric] canvas_s1 [symmetric])
      finally show ?thesis .
    qed
    show ?thesis
      using first second by (simp add: s4_def [symmetric] canvas_s1)
  qed
  show ?thesis
    unfolding Let_def s1_def [symmetric] s3_def [symmetric] k_def [symmetric]
      top_def [symmetric] prev_def [symmetric]
    using last_s1 s3_eq loads by blast
qed

theorem snapshot_undo_redo_in_request_order_witness:
  "1 < length (undoStack (saveState sample_browser (stopDrawing sample_midstroke)))
   \<and> decode sample_browser (toDataURL sample_browser (bitmap (canvas (stopDrawing sample_midstroke))))
       = Some (bitmap (canvas (stopDrawing sample_midstroke)))
   \<and> bitmap (canvas (stopDrawing sample_midstroke)) = [opaque_black]
   \<and> redoCanvas (undoCanvas (saveState sample_browser (stopDrawing sample_midstroke)))
       = (saveState sample_browser (stopDrawing sample_midstroke))
           \<lparr>pending := [RestoreLoad (toDataURL sample_browser [opaque_white]),
                        RestoreLoad (toDataURL sample_browser [opaque_black])]\<rparr>
   \<and> bitmap (canvas (img_onload sample_browser 0
         (redoCanvas (undoCanvas (saveState sample_browser (stopDrawing sample_midstroke))))))
       = [opaque_white]
   \<and> img_onload sample_browser 0 (img_onload sample_browser 0
         (redoCanvas (undoCanvas (saveState sample_browser (stopDrawing sample_midstroke)))))
       = saveState sample_browser (stopDrawing sample_midstroke)
   \<and> bitmap (canvas (img_onload sample_browser 0 (img_onload sample_browser 0
         (redoCanvas (undoCanvas (saveState sample_browser (stopDrawing sample_midstroke)))))))
       = [opaque_black]"
proof -
  define s where "s = stopDrawing sample_midstroke"
  have stack: "undoStack (saveState sample_browser s)
      = [toDataURL sample_browser [opaque_white], toDataURL sample_browser [opaque_black]]"
    by (simp add: s_def sample_committed_snapshot [symmetric] sample_committed_eq)
  have long: "1 < length (undoStack (saveState sample_browser s))"
    by (simp add: stack)
  have bm: "bitmap (canvas s) = [opaque_black]" and pend: "pending s = []"
    by (simp_all add: s_def stopDrawing_def sample_midstroke_eq closePath_def)
  have dec: "decode sample_browser (toDataURL sample_browser (bitmap (canvas s)))
      = Some (bitmap (canvas s))"
    by (rule sample_decode_toDataURL)
  have prev: "decode sample_browser (last (butlast (undoStack (saveState sample_browser s))))
      = Some [opaque_white]"
    by (simp add: stack sample_decode_toDataURL)
  note roundtrip =
    snapshot_undo_redo_in_request_order [of sample_browser s, unfolded Let_def]
  note loads = roundtrip [THEN conjunct2, THEN conjunct2, THEN mp, OF long]
  have requested: "redoCanvas (undoCanvas (saveState sample_browser s))
      = (saveState sample_browser s)
          \<lparr>pending := [RestoreLoad (toDataURL sample_browser [opaque_white]),
                       RestoreLoad (toDataURL sample_browser [opaque_black])]\<rparr>"
    using roundtrip [THEN conjunct2, THEN conjunct1] by (simp add: stack pend bm)
  have "bitmap (canvas (img_onload sample_browser (length (pending s))
      (redoCanvas (undoCanvas (saveState sample_browser s)))))
      = bitmap (drawImage [opaque_white] (clearRect (canvas s)))"
    by (simp add: loads [THEN conjunct1] prev)
  then have first: "bitmap (canvas (img_onload sample_browser 0
      (redoCanvas (undoCanvas (saveState sample_browser s))))) = [opaque_white]"
    by (simp add: pend bitmap_restore bm)
  have second: "img_onload sample_browser 0 (img_onload sample_browser 0
      (redoCanvas (undoCanvas (saveState sample_browser s)))) = saveState sample_browser s"
    using loads [THEN conjunct2, THEN mp, OF dec, THEN conjunct1] by (simp add: pend)
  have final: "bitmap (canvas (img_onload sample_browser 0 (img_onload sample_browser 0
      (redoCanvas (undoCanvas (saveState sample_browser s)))))) = [opaque_black]"
    using loads [THEN conjunct2, THEN mp, OF dec, THEN conjunct2] by (simp add: pend bm)
  show ?thesis
    unfolding s_def [symmetric] using long dec bm requested first second final by (intro conjI)
qed

text \<open>
  Claim C4 as stated fails when the two image loads complete in the other order, which
  nothing in the component prevents. After a committed black stroke on the sample
  canvas, \<open>Ctrl+Z\<close> and \<open>Ctrl+Y\<close> put both stacks back, but when the load requested by
  the redo completes first and the one requested by the undo last, the canvas ends
  white, the state below the stroke, with no load pending.
\<close>

theorem undo_redo_out_of_order_counterexample:
  "sample_committed = saveState sample_browser (stopDrawing sample_midstroke)
   \<and> reachable sample_browser sample_out_of_order
   \<and> sample_out_of_order =
       img_onload sample_browser 0 (img_onload sample_browser 1
         (redoCanvas (undoCanvas sample_committed)))
   \<and> decode sample_browser (toDataURL sample_browser (bitmap (canvas sample_committed)))
       = Some (bitmap (canvas sample_committed))
   \<and> bitmap (canvas sample_committed) = [opaque_black]
   \<and> undoStack sample_out_of_order = undoStack sample_committed
   \<and> redoStack sample_out_of_order = redoStack sample_committed
   \<and> pending sample_out_of_order = []
   \<and> bitmap (canvas sample_out_of_order) = [opaque_white]
   \<and> opaque_white \<noteq> opaque_black"
proof -
  have value_eq: "sample_out_of_order =
      sample_committed\<lparr>canvas := (canvas sample_committed)\<lparr>bitmap := [opaque_white]\<rparr>\<rparr>"
    unfolding sample_out_of_order_eq sample_redone_eq
    by (simp add: img_onload_def sample_decode_toDataURL drawImage_def clearRect_def
        source_over_transparent sample_committed_eq)
  have before: "bitmap (canvas sample_committed) = [opaque_black]"
    and idle: "pending sample_committed = []"
    by (simp_all add: sample_committed_eq)
  have after: "undoStack sample_out_of_order = undoStack sample_committed"
    "redoStack sample_out_of_order = redoStack sample_committed"
    "pending sample_out_of_order = []"
    "bitmap (canvas sample_out_of_order) = [opaque_white]"
    by (simp_all add: value_eq idle)
  have px: "opaque_white \<noteq> opaque_black"
    by (simp add: opaque_white_def opaque_black_def)
  show ?thesis
    using sample_committed_snapshot reachable_sample_out_of_order sample_out_of_order_eq
      sample_decode_toDataURL [of "bitmap (canvas sample_committed)"] before after px
    by (intro conjI)
qed

text \<open>
  Claim C5, as amended. In a state whose undo stack is not empty and whose top snapshot
  is the data URL of the bitmap now on the canvas (nothing drawn since the last
  snapshot), and where that data URL decodes to the bitmap it was taken from,
  \<open>clearCanvas\<close> followed at once by \<open>undoCanvas\<close> requests the restoration of that
  snapshot, and when that image load completes the bitmap is the one that was on the
  canvas before the clear. The snapshot of the cleared canvas is then the only entry of
  the redo stack.
\<close>

theorem clear_then_undo_restores:
  assumes "top_is_current B s"
    and "decode B (toDataURL B (bitmap (canvas s))) = Some (bitmap (canvas s))"
  shows "bitmap (canvas (img_onload B (length (pending s)) (undoCanvas (clearCanvas B s))))
           = bitmap (canvas s)
         \<and> last (undoStack (undoCanvas (clearCanvas B s))) = last (undoStack s)
         \<and> redoStack (undoCanvas (clearCanvas B s))
             = [toDataURL B (bitmap (canvas (clearCanvas B s)))]"
proof -
  define c where "c = clearCanvas B s"
  define top where "top = toDataURL B (bitmap (canvas s))"
  define kept where
    "kept = (if length (undoStack s) < 10 then undoStack s else drop 1 (undoStack s))"
  have ne: "undoStack s \<noteq> []" and last_s: "last (undoStack s) = top"
    using assms(1) by (simp_all add: top_is_current_def top_def)
  have kept_ne: "kept \<noteq> []"
    using ne by (auto simp add: kept_def)
  have last_kept: "last kept = top"
    using ne last_s by (auto simp add: kept_def last_drop)
  have undo_c: "undoStack c = kept @ [toDataURL B (bitmap (canvas c))]"
    by (simp add: c_def clearCanvas_def saveState_undoStack saveState_other kept_def)
  have redo_c: "redoStack c = []"
    by (simp add: c_def clearCanvas_def saveState_redoStack)
  have pend_c: "pending c = pending s"
    by (simp add: c_def clearCanvas_def saveState_other)
  have len_c: "length (bitmap (canvas c)) = length (bitmap (canvas s))"
    by (simp add: c_def clearCanvas_def saveState_other fillRect_def set_fillStyle_def
        split: option.splits)
  have long: "1 < length (undoStack c)"
    using kept_ne by (cases kept) (simp_all add: undo_c)
  have u_eq: "undoCanvas c =
      c\<lparr>undoStack := kept, redoStack := [toDataURL B (bitmap (canvas c))],
        pending := pending s @ [RestoreLoad top]\<rparr>"
    by (simp add: undoCanvas_eq [OF long] undo_c redo_c pend_c last_kept)
  have "img_onload B (length (pending s)) (undoCanvas c) =
      (undoCanvas c)\<lparr>pending := pending s @ [],
        canvas := drawImage (bitmap (canvas s)) (clearRect (canvas (undoCanvas c)))\<rparr>"
    by (rule img_onload_restore [where url = top]) (simp_all add: u_eq assms(2) [folded top_def])
  then have "bitmap (canvas (img_onload B (length (pending s)) (undoCanvas c)))
      = bitmap (canvas s)"
    by (simp add: bitmap_restore u_eq len_c)
  then show ?thesis
    by (simp add: c_def [symmetric] u_eq last_kept last_s)
qed

theorem clear_then_undo_restores_witness:
  "top_is_current sample_browser (sample_full\<lparr>backgroundColor := ''#ffffff''\<rparr>)
   \<and> decode sample_browser
         (toDataURL sample_browser (bitmap (canvas (sample_full\<lparr>backgroundColor := ''#ffffff''\<rparr>))))
       = Some (bitmap (canvas (sample_full\<lparr>backgroundColor := ''#ffffff''\<rparr>)))
   \<and> bitmap (canvas (sample_full\<lparr>backgroundColor := ''#ffffff''\<rparr>)) = [opaque_black]
   \<and> bitmap (canvas (clearCanvas sample_browser (sample_full\<lparr>backgroundColor := ''#ffffff''\<rparr>)))
       = [opaque_white]
   \<and> bitmap (canvas (img_onload sample_browser 0
         (undoCanvas (clearCanvas sample_browser (sample_full\<lparr>backgroundColor := ''#ffffff''\<rparr>)))))
       = [opaque_black]"
proof -
  define s where "s = sample_full\<lparr>backgroundColor := ''#ffffff''\<rparr>"
  have top: "top_is_current sample_browser s"
    by (simp add: s_def top_is_current_def sample_full_eq)
  have dec: "decode sample_browser (toDataURL sample_browser (bitmap (canvas s)))
      = Some (bitmap (canvas s))"
    by (rule sample_decode_toDataURL)
  have bm: "bitmap (canvas s) = [opaque_black]" and pend: "pending s = []"
    by (simp_all add: s_def sample_full_eq)
  have cleared: "bitmap (canvas (clearCanvas sample_browser s)) = [opaque_white]"
    by (simp add: s_def sample_full_eq clearCanvas_def saveState_other fillRect_def
        set_fillStyle_def css_color_white_lower white_over_black)
  have restored: "bitmap (canvas (img_onload sample_browser 0
      (undoCanvas (clearCanvas sample_browser s)))) = [opaque_black]"
    using clear_then_undo_restores [OF top dec, THEN conjunct1] by (simp add: pend bm)
  show ?thesis
    unfolding s_def [symmetric] using top dec bm cleared restored by (intro conjI)
qed

text \<open>
  Claim C5 as stated fails where the canvas shows something that is in no snapshot. In
  the middle of a freehand stroke (button down, one move made) on the sample canvas the
  pixel is black and the only snapshot is the white one taken by \<open>ngOnInit\<close>.
  \<open>Delete\<close> and then \<open>Ctrl+Z\<close> leave, once the image has loaded and with no load
  pending, a white pixel: the stroke is not brought back.
\<close>

theorem clear_then_undo_counterexample:
  "reachable sample_browser sample_midstroke
   \<and> undoStack sample_midstroke \<noteq> []
   \<and> bitmap (canvas sample_midstroke) = [opaque_black]
   \<and> bitmap (canvas (img_onload sample_browser 0
         (undoCanvas (clearCanvas sample_browser sample_midstroke)))) = [opaque_white]
   \<and> pending (img_onload sample_browser 0
         (undoCanvas (clearCanvas sample_browser sample_midstroke))) = []
   \<and> opaque_white \<noteq> opaque_black"
proof -
  have c: "clearCanvas sample_browser sample_midstroke =
      sample_midstroke
        \<lparr>canvas := (canvas sample_midstroke)\<lparr>bitmap := [opaque_white]\<rparr>,
         undoStack := [toDataURL sample_browser [opaque_white],
                       toDataURL sample_browser [opaque_white]]\<rparr>"
    by (simp add: sample_midstroke_eq clearCanvas_def saveState_def fillRect_def
        set_fillStyle_def css_color_white_lower white_over_black)
  have u: "undoCanvas (clearCanvas sample_browser sample_midstroke) =
      sample_midstroke
        \<lparr>canvas := (canvas sample_midstroke)\<lparr>bitmap := [opaque_white]\<rparr>,
         redoStack := [toDataURL sample_browser [opaque_white]],
         pending := [RestoreLoad (toDataURL sample_browser [opaque_white])]\<rparr>"
    unfolding c by (simp add: undoCanvas_def restoreCanvas_def sample_midstroke_eq)
  have px: "opaque_white \<noteq> opaque_black"
    by (simp add: opaque_white_def opaque_black_def)
  have after: "img_onload sample_browser 0
      (undoCanvas (clearCanvas sample_browser sample_midstroke)) =
      sample_midstroke
        \<lparr>canvas := (canvas sample_midstroke)\<lparr>bitmap := [opaque_white]\<rparr>,
         redoStack := [toDataURL sample_browser [opaque_white]]\<rparr>"
    unfolding u
    by (simp add: img_onload_def sample_decode_toDataURL drawImage_def clearRect_def
        source_over_transparent sample_midstroke_eq)
  have before: "undoStack sample_midstroke \<noteq> []" "bitmap (canvas sample_midstroke) = [opaque_black]"
    by (simp_all add: sample_midstroke_eq)
  have pend: "pending sample_midstroke = []"
    by (simp add: sample_midstroke_eq)
  show ?thesis
    unfolding after using reachable_sample_midstroke before px by (simp add: pend)
qed

text \<open>
  Claim C6, as amended. In a drawing session with a tool other than freehand, the mouse
  release handler (\<open>mouseup\<close>, \<open>mouseleave\<close>), which is bound with no argument, commits
  the shape drawn from the press point to the position of the global \<open>event\<close> at the
  time of the release, taken relative to the canvas's bounding box: the session
  returns, the path it leaves on the canvas is the path \<open>drawShape\<close> draws between
  those two points, whatever moves lay in between, the session is over and a
  snapshot of the result is on top of the undo stack. No pointer position is kept in
  the component between a move and the release.
\<close>

theorem mouse_release_reads_window_event:
  assumes "selectedShape s \<noteq> ''freehand''"
  shows "(\<exists>s'. mouse_session B r (MouseEvent dx dy) (map (\<lambda>(x, y). MouseEvent x y) ms)
                 (Some (MouseEvent ux uy)) s = Inr s'
            \<and> path (canvas s') =
                path (canvas (drawShape B (dx - rect_left r) (dy - rect_top r)
                                          (ux - rect_left r) (uy - rect_top r) s))
            \<and> \<not> drawing s' \<and> top_is_current B s')
         \<and> (drawing s \<longrightarrow>
              onMouseUp B r (Some (MouseEvent ux uy)) s =
                Inr (saveState B (stopDrawing
                  (drawShape B (startX s) (startY s) (ux - rect_left r) (uy - rect_top r) s))))"
  using mouse_session_shape [OF assms] onMouseUp_shape [OF _ assms] by blast

theorem mouse_release_reads_window_event_witness:
  "selectedShape sample_line \<noteq> ''freehand''
   \<and> drawing sample_touching
   \<and> committed_path
        (mouse_session sample_browser sample_rect (MouseEvent 10 20)
           (map (\<lambda>(x, y). MouseEvent x y) [(15, 25)]) (Some (MouseEvent 19 29)) sample_line)
       = Some [MoveTo 0 0, LineTo 9 9]
   \<and> committed_path
        (onMouseUp sample_browser sample_rect (Some (MouseEvent 19 29)) sample_touching)
       = Some [MoveTo 0 0, LineTo 9 9]"
proof -
  have shape: "selectedShape sample_line \<noteq> ''freehand''"
    and shape': "selectedShape sample_touching \<noteq> ''freehand''"
    and touching: "drawing sample_touching" "startX sample_touching = 0" "startY sample_touching = 0"
    by (simp_all add: sample_line_eq sample_touching_eq sample_initial_eq)
  have line: "selectedShape sample_line = ''line''" "selectedShape sample_touching = ''line''"
    by (simp_all add: sample_line_eq sample_touching_eq)
  have session: "committed_path
      (mouse_session sample_browser sample_rect (MouseEvent 10 20)
         (map (\<lambda>(x, y). MouseEvent x y) [(15, 25)]) (Some (MouseEvent 19 29)) sample_line)
      = Some [MoveTo 0 0, LineTo 9 9]"
    using mouse_release_reads_window_event [OF shape, THEN conjunct1,
        of sample_browser sample_rect 10 20 "[(15, 25)]" 19 29]
    by (auto simp add: committed_path_def path_drawShape line sample_rect_def)
  have release: "committed_path
      (onMouseUp sample_browser sample_rect (Some (MouseEvent 19 29)) sample_touching)
      = Some [MoveTo 0 0, LineTo 9 9]"
    using mouse_release_reads_window_event [OF shape', THEN conjunct2, THEN mp, OF touching(1),
        of sample_browser sample_rect 19 29]
    by (simp add: committed_path_def saveState_other stopDrawing_shape drawShape_session
        path_drawShape line touching sample_rect_def)
  show ?thesis
    using shape touching(1) session release by (intro conjI)
qed

text \<open>
  Claim C6 as stated fails: the component has no field for a pointer position, and
  the release handlers read the global \<open>event\<close>. With the line tool, a press at
  canvas point \<open>(0, 0)\<close>, one move to \<open>(5, 5)\<close> and a release while the pointer is at
  \<open>(9, 9)\<close> commit the line to \<open>(9, 9)\<close>, not the line to the last position a move
  event reported. On \<open>touchend\<close> of the only finger the global event has no touch left
  and the handler raises before it commits anything.
\<close>

theorem release_position_counterexample:
  "selectedShape sample_line \<noteq> ''freehand''
   \<and> committed_path
        (mouse_session sample_browser sample_rect (MouseEvent 10 20) [MouseEvent 15 25]
           (Some (MouseEvent 19 29)) sample_line)
       = Some [MoveTo 0 0, LineTo 9 9]
   \<and> path (canvas (drawShape sample_browser 0 0 5 5 sample_line)) = [MoveTo 0 0, LineTo 5 5]
   \<and> [MoveTo 0 0, LineTo 9 9] \<noteq> [MoveTo 0 0, LineTo 5 5]
   \<and> drawing sample_touching
   \<and> onTouchEnd sample_browser sample_rect (Some (TouchEvent [])) sample_touching = Inl TypeError"
proof -
  have shape: "selectedShape sample_line \<noteq> ''freehand''"
    and line: "selectedShape sample_line = ''line''"
    and touching: "drawing sample_touching"
    by (simp_all add: sample_line_eq sample_touching_eq sample_initial_eq)
  have "committed_path
      (mouse_session sample_browser sample_rect (MouseEvent 10 20)
         (map (\<lambda>(x, y). MouseEvent x y) [(15, 25)]) (Some (MouseEvent 19 29)) sample_line)
      = Some [MoveTo 0 0, LineTo 9 9]"
    using mouse_session_shape [OF shape, of sample_browser sample_rect 10 20 "[(15, 25)]" 19 29]
    by (auto simp add: committed_path_def path_drawShape line sample_rect_def)
  then have session: "committed_path
      (mouse_session sample_browser sample_rect (MouseEvent 10 20) [MouseEvent 15 25]
         (Some (MouseEvent 19 29)) sample_line)
      = Some [MoveTo 0 0, LineTo 9 9]"
    by simp
  have expected: "path (canvas (drawShape sample_browser 0 0 5 5 sample_line))
      = [MoveTo 0 0, LineTo 5 5]"
    by (simp add: path_drawShape line)
  have differ: "[MoveTo 0 0, LineTo 9 9] \<noteq> [MoveTo 0 0, LineTo 5 5]"
    by simp
  show ?thesis
    using shape session expected differ touching onTouchEnd_no_touch_left [OF touching]
    by (intro conjI)
qed

text \<open>
  Claim C7. With the circle tool, \<open>drawShape\<close> starts a new path, adds one full arc
  (from angle \<open>0\<close> to \<open>2\<pi>\<close>) whose centre is the start point and whose radius is the
  Euclidean distance from the start point to the end point (the distance of the two
  points in the complex plane), and strokes it. From
  \<open>(50, 50)\<close> to \<open>(80, 50)\<close> the arc has centre \<open>(50, 50)\<close> and radius \<open>30\<close>.
\<close>

theorem circle_is_centred_at_start:
  "canvas (drawShape B sx sy ex ey (onShapeSelected ''circle'' s)) =
     stroke B ((canvas s)\<lparr>path := [Arc sx sy (dist (Complex sx sy) (Complex ex ey)) 0 (2 * pi)]\<rparr>)
   \<and> dist (Complex sx sy) (Complex ex ey) = sqrt ((ex - sx)\<^sup>2 + (ey - sy)\<^sup>2)
   \<and> path (canvas (drawShape B 50 50 80 50 (onShapeSelected ''circle'' s))) =
       [Arc 50 50 30 0 (2 * pi)]"
proof -
  have d: "dist (Complex sx sy) (Complex ex ey) = sqrt ((ex - sx)\<^sup>2 + (ey - sy)\<^sup>2)"
    by (simp add: dist_norm cmod_def power2_commute [of sx ex] power2_commute [of sy ey])
  have "sqrt (30\<^sup>2) = \<bar>30 :: real\<bar>"
    by (rule real_sqrt_abs)
  then have r: "sqrt 900 = (30 :: real)"
    by simp
  have general: "canvas (drawShape B sx sy ex ey (onShapeSelected ''circle'' s)) =
      stroke B ((canvas s)\<lparr>path := [Arc sx sy (dist (Complex sx sy) (Complex ex ey)) 0 (2 * pi)]\<rparr>)"
    unfolding d by (simp add: drawShape_def onShapeSelected_def Let_def beginPath_def arc_def)
  have inst: "path (canvas (drawShape B 50 50 80 50 (onShapeSelected ''circle'' s))) =
      [Arc 50 50 30 0 (2 * pi)]"
    by (simp add: path_drawShape onShapeSelected_def r)
  show ?thesis
    using general d inst by (intro conjI)
qed

text \<open>
  Claim C8. With the rectangle tool, \<open>drawShape\<close> starts a new path, adds one
  rectangle with a corner at the start point and the signed size
  \<open>(ex - sx, ey - sy)\<close>, and strokes it. From \<open>(10, 10)\<close> to \<open>(5, 5)\<close> the width and
  the height are both \<open>-5\<close>.
\<close>

theorem rectangle_has_signed_size:
  "canvas (drawShape B sx sy ex ey (onShapeSelected ''rectangle'' s)) =
     stroke B ((canvas s)\<lparr>path := [Rect sx sy (ex - sx) (ey - sy)]\<rparr>)
   \<and> path (canvas (drawShape B 10 10 5 5 (onShapeSelected ''rectangle'' s))) =
       [Rect 10 10 (- 5) (- 5)]"
  by (simp add: drawShape_def onShapeSelected_def Let_def beginPath_def rect_def stroke_def)

text \<open>
  Claim C9. \<open>downloadCanvas\<close> creates a canvas of the size of the visible one, fills
  it with \<open>#FFFFFF\<close>, draws the visible bitmap onto it and takes the data URL of the
  result as the \<open>href\<close> of a link whose \<open>download\<close> name is \<open>sketchy.png\<close>. Every pixel
  of the exported bitmap is the visible pixel composited over opaque white, so every
  pixel is fully opaque and a fully transparent pixel is exported white. Neither the
  background colour setting nor the fill style of the visible canvas has any part in it.
\<close>

theorem download_is_opaque_on_white:
  "download (downloadCanvas B s) = ''sketchy.png''
   \<and> href (downloadCanvas B s) = toDataURL B (bitmap (tempCanvas B s))
   \<and> bitmap (tempCanvas B s) = map (\<lambda>p. source_over p opaque_white) (bitmap (canvas s))
   \<and> (\<forall>p \<in> set (bitmap (tempCanvas B s)). alpha p = 255)
   \<and> (\<forall>i < length (bitmap (canvas s)).
         alpha (bitmap (canvas s) ! i) = 0 \<longrightarrow> bitmap (tempCanvas B s) ! i = opaque_white)
   \<and> downloadCanvas B (s\<lparr>backgroundColor := color\<rparr>) = downloadCanvas B s
   \<and> downloadCanvas B (s\<lparr>canvas := (canvas s)\<lparr>fillStyle := f\<rparr>\<rparr>) = downloadCanvas B s"
proof -
  have onto: "map2 source_over bm (map (\<lambda>_. opaque_white) bm)
      = map (\<lambda>p. source_over p opaque_white) bm" for bm :: bitmap
    by (induction bm) simp_all
  have temp: "bitmap (tempCanvas B t) = map (\<lambda>p. source_over p opaque_white) (bitmap (canvas t))"
    for t
  proof -
    have "bitmap (tempCanvas B t)
        = overlay (bitmap (canvas t)) (map (\<lambda>_. opaque_white) (bitmap (canvas t)))"
      by (simp add: tempCanvas_def Let_def blank_canvas_def set_fillStyle_def css_color_white
          fillRect_def drawImage_def comp_def source_over_transparent)
    also have "\<dots> = map2 source_over (bitmap (canvas t)) (map (\<lambda>_. opaque_white) (bitmap (canvas t)))"
      by (rule overlay_same_length) simp
    also have "\<dots> = map (\<lambda>p. source_over p opaque_white) (bitmap (canvas t))"
      by (rule onto)
    finally show ?thesis .
  qed
  have opaque: "alpha p = 255" if "p \<in> set (bitmap (tempCanvas B s))" for p
    using that by (auto simp add: temp alpha_source_over_opaque opaque_white_def)
  have invisible: "bitmap (tempCanvas B s) ! i = opaque_white"
    if "i < length (bitmap (canvas s))" "alpha (bitmap (canvas s) ! i) = 0" for i
    using that by (simp add: temp source_over_invisible opaque_white_def)
  have independent:
    "tempCanvas B (s\<lparr>backgroundColor := color\<rparr>) = tempCanvas B s"
    "tempCanvas B (s\<lparr>canvas := (canvas s)\<lparr>fillStyle := f\<rparr>\<rparr>) = tempCanvas B s"
    by (simp_all add: tempCanvas_def)
  show ?thesis
    using opaque invisible by (simp add: downloadCanvas_def temp [symmetric] independent)
qed

theorem download_is_opaque_on_white_witness:
  "bitmap (canvas sample_translucent) = [transparent_black, RGBA 255 0 0 128]
   \<and> bitmap (tempCanvas sample_browser sample_translucent) = [opaque_white, RGBA 255 127 127 255]
   \<and> RGBA 255 127 127 255 \<in> set (bitmap (tempCanvas sample_browser sample_translucent))
   \<and> alpha (RGBA 255 127 127 255) = 255
   \<and> 0 < length (bitmap (canvas sample_translucent))
   \<and> alpha (bitmap (canvas sample_translucent) ! 0) = 0
   \<and> bitmap (tempCanvas sample_browser sample_translucent) ! 0 = opaque_white
   \<and> download (downloadCanvas sample_browser sample_translucent) = ''sketchy.png''"
proof -
  have bm: "bitmap (canvas sample_translucent) = [transparent_black, RGBA 255 0 0 128]"
    by (simp add: sample_translucent_def)
  have px: "source_over transparent_black opaque_white = opaque_white"
    "source_over (RGBA 255 0 0 128) opaque_white = RGBA 255 127 127 255"
    by (simp_all add: source_over_def mix_def Let_def transparent_black_def opaque_white_def)
  note download = download_is_opaque_on_white [of sample_browser sample_translucent]
  have temp: "bitmap (tempCanvas sample_browser sample_translucent)
      = [opaque_white, RGBA 255 127 127 255]"
    using download [THEN conjunct2, THEN conjunct2, THEN conjunct1] by (simp add: bm px)
  have name: "download (downloadCanvas sample_browser sample_translucent) = ''sketchy.png''"
    using download [THEN conjunct1] .
  show ?thesis
    using bm temp name by (simp add: transparent_black_def)
qed

text \<open>
  Claim C10. \<open>initializeCanvas\<close> leaves at least one snapshot on the undo stack and at
  most ten on the two stacks together; taking a snapshot, a release handler that
  commits, \<open>clearCanvas\<close>, \<open>onBackgroundColorSelected\<close>, \<open>undoCanvas\<close>, \<open>redoCanvas\<close>,
  \<open>onShapeSelected\<close>, \<open>changeColor\<close> and every other input (\<open>downloadCanvas\<close> assigns
  no field) keep it so. Hence it holds in every state of a running component, and the
  redo stack never has more than nine entries.
\<close>

theorem history_invariant:
  "(initializeCanvas B True (new_component like) = Inr s0 \<longrightarrow> hist_inv s0)
   \<and> (hist_inv s \<longrightarrow>
        hist_inv (saveState B s) \<and> hist_inv (clearCanvas B s)
        \<and> hist_inv (onBackgroundColorSelected B color s)
        \<and> hist_inv (undoCanvas s) \<and> hist_inv (redoCanvas s)
        \<and> hist_inv (onShapeSelected shape s) \<and> hist_inv (changeColor B color s)
        \<and> (onMouseUp B r we s = Inr s1 \<longrightarrow> hist_inv s1)
        \<and> (onTouchEnd B r we s = Inr s2 \<longrightarrow> hist_inv s2)
        \<and> hist_inv (step B i s)
        \<and> length (redoStack s) \<le> 9)
   \<and> (reachable B s \<longrightarrow> hist_inv s \<and> length (redoStack s) \<le> 9)"
proof -
  have nine: "length (redoStack t) \<le> 9" if "hist_inv t" for t
    using that by (simp add: hist_inv_def)
  have "hist_inv (saveState B s)" if "hist_inv s"
    using that by (intro saveState_hist_inv) (simp add: hist_inv_def)
  then show ?thesis
    using nine [of s]
    by (auto simp add: initial_hist_inv clearCanvas_hist_inv onBackgroundColorSelected_hist_inv
        undoCanvas_hist_inv redoCanvas_hist_inv onShapeSelected_hist_inv changeColor_hist_inv
        step_hist_inv reachable_hist_inv
        elim: onMouseUp_hist_inv onTouchEnd_hist_inv)
qed

theorem history_invariant_witness:
  "initializeCanvas sample_browser True (new_component [transparent_black]) = Inr sample_initial
   \<and> hist_inv sample_initial
   \<and> reachable sample_browser sample_full
   \<and> hist_inv sample_full
   \<and> hist_inv (saveState sample_browser sample_full)
   \<and> hist_inv (clearCanvas sample_browser sample_full)
   \<and> hist_inv (undoCanvas sample_full)
   \<and> hist_inv (redoCanvas sample_full)
   \<and> onMouseUp sample_browser sample_rect None sample_full = Inr sample_full
   \<and> length (undoStack sample_full) = 10
   \<and> length (redoStack sample_full) \<le> 9"
proof -
  have init: "initializeCanvas sample_browser True (new_component [transparent_black])
      = Inr sample_initial"
    by (simp add: initializeCanvas_def sample_initial_def)
  have up: "onMouseUp sample_browser sample_rect None sample_full = Inr sample_full"
    by (simp add: onMouseUp_def sample_full_eq)
  have len: "length (undoStack sample_full) = 10"
    by (simp add: sample_full_eq)
  show ?thesis
    using history_invariant [where B = sample_browser and like = "[transparent_black]"
        and ?s0.0 = sample_initial and s = sample_full and r = sample_rect and we = None
        and ?s1.0 = sample_full]
      init up len reachable_sample_full
    by simp
qed

end
